theory Spec2Isabelle
  imports Main
begin

section \<open>Values, errors and results\<close>

text \<open>
  The client of \<^verbatim>\<open>clients/python/driftdb\<close> exchanges JSON documents with the server.
  A decoded document is a \<open>json\<close> value; a Python dict is the association list of its
  items (keys distinct, as \<^verbatim>\<open>json.loads\<close> produces them), Python's \<^verbatim>\<open>None\<close> is
  \<open>JNull\<close>, and a float is kept as significand and exponent, since the client only
  passes floats on.
\<close>

datatype json =
    JNull
  | JBool bool
  | JInt int
  | JFloat int int
  | JStr string
  | JArr "json list"
  | JObj "(string \<times> json) list"

text \<open>
  The exception classes of \<^verbatim>\<open>exceptions.py\<close>, each with the text it was raised with, and
  \<open>BuiltinError\<close> for an exception that is not the client's own (its class name and text).
\<close>

datatype error =
    ConnectionError string
  | QueryError string
  | TimeoutError string
  | AuthenticationError string
  | TransactionError string
  | BuiltinError string string

text \<open>
  A call returns a value, raises, or stays suspended for ever (an \<^verbatim>\<open>await\<close> that nothing
  completes).
\<close>

datatype 'a outcome = Returns 'a | Raises error | Blocks

fun lift :: "error + 'a \<Rightarrow> 'a outcome" where
  "lift (Inl e) = Raises e"
| "lift (Inr v) = Returns v"

subsection \<open>Python built-ins the client relies on\<close>

text \<open>\<^verbatim>\<open>d.get(key, default)\<close> on a dict.\<close>

definition dict_get :: "(string \<times> json) list \<Rightarrow> string \<Rightarrow> json \<Rightarrow> json" where
  "dict_get kvs k d = (case map_of kvs k of None \<Rightarrow> d | Some v \<Rightarrow> v)"

fun py_type_name :: "json \<Rightarrow> string" where
  "py_type_name JNull = ''NoneType''"
| "py_type_name (JBool b) = ''bool''"
| "py_type_name (JInt i) = ''int''"
| "py_type_name (JFloat m e) = ''float''"
| "py_type_name (JStr s) = ''str''"
| "py_type_name (JArr xs) = ''list''"
| "py_type_name (JObj kvs) = ''dict''"

text \<open>
  Iterating over a value, as the list comprehension of \<^verbatim>\<open>Connection.execute\<close> does: a list
  gives its items, a string its characters, a dict its keys; anything else raises
  \<^verbatim>\<open>TypeError\<close> (\<open>None\<close> here).
\<close>

fun py_iter :: "json \<Rightarrow> json list option" where
  "py_iter (JArr xs) = Some xs"
| "py_iter (JStr s) = Some (map (\<lambda>c. JStr [c]) s)"
| "py_iter (JObj kvs) = Some (map (\<lambda>kv. JStr (fst kv)) kvs)"
| "py_iter v = None"

text \<open>Decimal rendering of an integer, as an f-string interpolates it.\<close>

definition digit_char :: "nat \<Rightarrow> char" where
  "digit_char n = ''0123456789'' ! n"

fun digits :: "nat \<Rightarrow> string" where
  "digits n = (if n < 10 then [digit_char n] else digits (n div 10) @ [digit_char (n mod 10)])"

declare digits.simps [simp del]

definition str_int :: "int \<Rightarrow> string" where
  "str_int i = (if i < 0 then ''-'' @ digits (nat (- i)) else digits (nat i))"

text \<open>Reading a decimal numeral back, to state what \<open>str_int\<close> renders.\<close>

definition digit_value :: "char \<Rightarrow> nat" where
  "digit_value ch = of_char ch - 48"

definition read_nat :: "string \<Rightarrow> nat" where
  "read_nat s = foldl (\<lambda>a ch. 10 * a + digit_value ch) 0 s"

definition read_int :: "string \<Rightarrow> int" where
  "read_int s =
     (case s of
        [] \<Rightarrow> 0
      | ch # r \<Rightarrow> if ch = CHR ''-'' then - int (read_nat r) else int (read_nat s))"

section \<open>The environment\<close>

text \<open>
  What the network and the server do is not the client's code. Each transport operation
  asks the environment for its outcome, at the current reading of a clock that every such
  operation advances.

  \<^item> an exchange (\<^verbatim>\<open>write\<close>, \<^verbatim>\<open>drain\<close>, \<^verbatim>\<open>readline\<close>, \<^verbatim>\<open>json.loads\<close>): the write or the
    drain raised, the read (or the UTF-8 decoding) raised, \<^verbatim>\<open>json.loads\<close> raised
    \<^verbatim>\<open>JSONDecodeError\<close>, or a document was decoded; the string is \<^verbatim>\<open>str(e)\<close>;
  \<^item> opening a connection: established, \<^verbatim>\<open>asyncio.TimeoutError\<close>, or another exception;
  \<^item> closing a stream writer (\<^verbatim>\<open>close\<close> then \<^verbatim>\<open>wait_closed\<close>): done, or an exception
    (\<^verbatim>\<open>wait_closed\<close> re-raises the error a connection was lost with);
  \<^item> \<open>py_repr\<close>: Python's \<^verbatim>\<open>str\<close> on a value that is not a string.
\<close>

datatype exchange = SendFault string | RecvFault string | BadJson string | Reply json

datatype connect_outcome = Established | TimedOut | Refused string

datatype close_outcome = Closed | CloseFault string string

record env =
  server :: "nat \<Rightarrow> exchange"
  connector :: "nat \<Rightarrow> connect_outcome"
  closer :: "nat \<Rightarrow> close_outcome"
  py_repr :: "json \<Rightarrow> string"

definition py_str :: "env \<Rightarrow> json \<Rightarrow> string" where
  "py_str en v = (case v of JStr s \<Rightarrow> s | _ \<Rightarrow> py_repr en v)"

section \<open>types.py and query.py\<close>

datatype row = Row json

record query_result =
  rows :: "row list"
  row_count :: int
  columns :: json
  execution_time_ms :: json

text \<open>\<^verbatim>\<open>QueryResult.__len__\<close>.\<close>

definition len_result :: "query_result \<Rightarrow> int" where
  "len_result r = row_count r"

text \<open>
  \<^verbatim>\<open>QueryResult.__getitem__\<close>: Python list indexing, where a negative index counts from the
  end and an index out of range raises \<^verbatim>\<open>IndexError\<close>.
\<close>

definition getitem :: "query_result \<Rightarrow> int \<Rightarrow> error + row" where
  "getitem r i =
     (let n = int (length (rows r)); j = (if i < 0 then n + i else i)
      in if 0 \<le> j \<and> j < n then Inr (rows r ! nat j)
         else Inl (BuiltinError ''IndexError'' ''list index out of range''))"

section \<open>client.py: Connection\<close>

text \<open>
  A \<^verbatim>\<open>Connection\<close> object: \<open>has_writer\<close> says that \<^verbatim>\<open>_reader\<close>/\<^verbatim>\<open>_writer\<close> are set,
  \<open>connected\<close> is \<^verbatim>\<open>_connected\<close>. Objects live in a heap and are referred to by their
  index, since the pool's queue and a transaction share them.
\<close>

record connection =
  host :: string
  port :: int
  has_writer :: bool
  connected :: bool

text \<open>The message \<^verbatim>\<open>Connection.execute\<close> serialises: keys \<^verbatim>\<open>type\<close>, \<^verbatim>\<open>query\<close>, \<^verbatim>\<open>params\<close>.\<close>

record request =
  msg_type :: string
  msg_query :: string
  msg_params :: "json list"

text \<open>
  \<^verbatim>\<open>ConnectionPool\<close>: \<open>available\<close> is the queue \<^verbatim>\<open>_available\<close> (head first), \<open>pool_size\<close>
  is \<^verbatim>\<open>_size\<close>, \<open>locked\<close> says that \<^verbatim>\<open>_lock\<close> is held. \<open>timeout\<close> is the float by its
  \<^verbatim>\<open>str\<close> rendering: the client only formats it into a message, the wait is the
  transport's.
\<close>

record pool =
  pool_host :: string
  pool_port :: int
  min_size :: int
  max_size :: int
  timeout :: string
  available :: "nat list"
  pool_size :: int
  locked :: bool

text \<open>
  The world: the heap of connection objects, the requests written so far (with the
  connection each was written on), the clock, and the pool of the client.
\<close>

record world =
  heap :: "connection list"
  wire :: "(nat \<times> request) list"
  clock :: nat
  cpool :: pool

definition new_connection :: "string \<Rightarrow> int \<Rightarrow> connection" where
  "new_connection h p = \<lparr>host = h, port = p, has_writer = False, connected = False\<rparr>"

text \<open>\<^verbatim>\<open>Connection.connect\<close>, on the outcome of \<^verbatim>\<open>asyncio.open_connection\<close>.\<close>

definition connect :: "connect_outcome \<Rightarrow> string \<Rightarrow> connection \<Rightarrow> error + connection" where
  "connect oc t c =
     (case oc of
        Established \<Rightarrow> Inr (c\<lparr>has_writer := True, connected := True\<rparr>)
      | TimedOut \<Rightarrow> Inl (TimeoutError (''Connection timeout after '' @ t @ ''s''))
      | Refused e \<Rightarrow>
          Inl (ConnectionError
                 (''Failed to connect to '' @ host c @ '':'' @ str_int (port c) @ '': '' @ e)))"

text \<open>
  The part of \<^verbatim>\<open>Connection.execute\<close> after \<^verbatim>\<open>json.loads\<close>. It runs inside the
  \<^verbatim>\<open>try\<close>, so whatever it raises, the \<^verbatim>\<open>QueryError\<close> of an error response included, is
  caught by \<^verbatim>\<open>except Exception\<close> and raised again as
  \<^verbatim>\<open>QueryError(f"Query execution failed: {e}")\<close>.
\<close>

definition parse_response :: "env \<Rightarrow> json \<Rightarrow> error + query_result" where
  "parse_response en response =
     (case response of
        JObj kvs \<Rightarrow>
          if dict_get kvs ''type'' JNull = JStr ''error''
          then Inl (QueryError (''Query execution failed: '' @
                      py_str en (dict_get kvs ''message'' (JStr ''Unknown error''))))
          else (case py_iter (dict_get kvs ''rows'' (JArr [])) of
                  None \<Rightarrow>
                    Inl (QueryError (''Query execution failed: '' @ [CHR 0x27] @
                           py_type_name (dict_get kvs ''rows'' (JArr [])) @ [CHR 0x27] @
                           '' object is not iterable''))
                | Some items \<Rightarrow>
                    Inr \<lparr>rows = map Row items,
                         row_count = int (length (map Row items)),
                         columns = dict_get kvs ''columns'' (JArr []),
                         execution_time_ms = dict_get kvs ''execution_time_ms'' JNull\<rparr>)
      | _ \<Rightarrow>
          Inl (QueryError (''Query execution failed: '' @ [CHR 0x27] @ py_type_name response @
                 [CHR 0x27] @ '' object has no attribute '' @ [CHR 0x27] @ ''get'' @ [CHR 0x27])))"

definition query_message :: "string \<Rightarrow> json list option \<Rightarrow> request" where
  "query_message q params =
     \<lparr>msg_type = ''query'', msg_query = q,
      msg_params = (case params of None \<Rightarrow> [] | Some ps \<Rightarrow> ps)\<rparr>"

text \<open>
  \<^verbatim>\<open>Connection.execute\<close> on the connection object \<open>c\<close>. Parameters are JSON values, so
  \<^verbatim>\<open>json.dumps\<close> does not fail; the request counts as written once \<^verbatim>\<open>write\<close> is called.
\<close>

definition conn_execute ::
  "env \<Rightarrow> nat \<Rightarrow> string \<Rightarrow> json list option \<Rightarrow> world \<Rightarrow> (error + query_result) \<times> world" where
  "conn_execute en c q params w =
     (if \<not> connected (heap w ! c) then (Inl (ConnectionError ''Not connected to server''), w)
      else
        let w' = w\<lparr>wire := wire w @ [(c, query_message q params)], clock := Suc (clock w)\<rparr>
        in (case server en (clock w) of
              SendFault e \<Rightarrow> (Inl (QueryError (''Query execution failed: '' @ e)), w')
            | RecvFault e \<Rightarrow> (Inl (QueryError (''Query execution failed: '' @ e)), w')
            | BadJson e \<Rightarrow> (Inl (QueryError (''Invalid response from server: '' @ e)), w')
            | Reply response \<Rightarrow> (parse_response en response, w')))"

text \<open>
  \<^verbatim>\<open>Connection.close\<close>. Nothing in it catches an exception: one raised by the writer
  leaves the method before \<^verbatim>\<open>_connected\<close> is cleared.
\<close>

definition conn_close :: "env \<Rightarrow> nat \<Rightarrow> world \<Rightarrow> unit outcome \<times> world" where
  "conn_close en c w =
     (if has_writer (heap w ! c)
      then (case closer en (clock w) of
              Closed \<Rightarrow>
                (Returns (),
                 w\<lparr>heap := (heap w)[c := (heap w ! c)\<lparr>connected := False\<rparr>],
                   clock := Suc (clock w)\<rparr>)
            | CloseFault cls e \<Rightarrow> (Raises (BuiltinError cls e), w\<lparr>clock := Suc (clock w)\<rparr>))
      else (Returns (), w\<lparr>heap := (heap w)[c := (heap w ! c)\<lparr>connected := False\<rparr>]\<rparr>))"

section \<open>client.py: ConnectionPool\<close>

text \<open>\<^verbatim>\<open>ConnectionPool.__init__\<close>.\<close>

definition new_pool :: "string \<Rightarrow> int \<Rightarrow> int \<Rightarrow> int \<Rightarrow> string \<Rightarrow> pool" where
  "new_pool h p mn mx t =
     \<lparr>pool_host = h, pool_port = p, min_size = mn, max_size = mx, timeout = t,
      available = [], pool_size = 0, locked = False\<rparr>"

definition new_world :: "pool \<Rightarrow> world" where
  "new_world p = \<lparr>heap = [], wire = [], clock = 0, cpool = p\<rparr>"

text \<open>
  \<^verbatim>\<open>_create_connection\<close>, on the outcome of opening the connection: \<^verbatim>\<open>_size\<close> is
  incremented after \<^verbatim>\<open>connect\<close> has returned, and not when it raised.
\<close>

definition create_connection :: "connect_outcome \<Rightarrow> world \<Rightarrow> nat outcome \<times> world" where
  "create_connection oc w =
     (case connect oc (timeout (cpool w))
             (new_connection (pool_host (cpool w)) (pool_port (cpool w))) of
        Inl e \<Rightarrow> (Raises e, w\<lparr>clock := Suc (clock w)\<rparr>)
      | Inr c \<Rightarrow>
          (Returns (length (heap w)),
           w\<lparr>heap := heap w @ [c], clock := Suc (clock w),
             cpool := (cpool w)\<lparr>pool_size := pool_size (cpool w) + 1\<rparr>\<rparr>))"

text \<open>\<^verbatim>\<open>release\<close>: the connection is put at the end of the queue, whatever its health.\<close>

definition release :: "nat \<Rightarrow> world \<Rightarrow> world" where
  "release c w = w\<lparr>cpool := (cpool w)\<lparr>available := available (cpool w) @ [c]\<rparr>\<rparr>"

text \<open>
  \<^verbatim>\<open>initialize\<close>: the loop over \<^verbatim>\<open>range(self.min_size)\<close>, which is empty for a
  \<^verbatim>\<open>min_size\<close> below one; the first creation that raises ends it.
\<close>

fun init_loop :: "env \<Rightarrow> nat \<Rightarrow> world \<Rightarrow> unit outcome \<times> world" where
  "init_loop en 0 w = (Returns (), w)"
| "init_loop en (Suc n) w =
     (case create_connection (connector en (clock w)) w of
        (Returns c, w') \<Rightarrow> init_loop en n (release c w')
      | (Raises e, w') \<Rightarrow> (Raises e, w')
      | (Blocks, w') \<Rightarrow> (Blocks, w'))"

definition initialize :: "env \<Rightarrow> world \<Rightarrow> unit outcome \<times> world" where
  "initialize en w = init_loop en (nat (min_size (cpool w))) w"

text \<open>
  \<^verbatim>\<open>acquire\<close>, run by one caller while no other task touches the pool: the bounded
  \<^verbatim>\<open>get\<close> returns the head of the queue if there is one; otherwise it times out, the lock
  is taken, and below \<^verbatim>\<open>max_size\<close> a connection is created; at capacity (or with the lock
  held for ever) the caller stays suspended.
\<close>

definition acquire :: "env \<Rightarrow> world \<Rightarrow> nat outcome \<times> world" where
  "acquire en w =
     (case available (cpool w) of
        c # rest \<Rightarrow> (Returns c, w\<lparr>cpool := (cpool w)\<lparr>available := rest\<rparr>\<rparr>)
      | [] \<Rightarrow>
          if locked (cpool w) then (Blocks, w)
          else if pool_size (cpool w) < max_size (cpool w)
               then create_connection (connector en (clock w)) w
               else (Blocks, w))"

subsection \<open>Concurrent callers of the pool\<close>

text \<open>
  Tasks run interleaved and switch at an \<^verbatim>\<open>await\<close>. A task is outside the pool
  (\<open>Idle\<close>), in the bounded \<^verbatim>\<open>get\<close> of \<^verbatim>\<open>acquire\<close> (\<open>Polling\<close>), waiting for the lock
  after the timeout (\<open>AtLock\<close>), inside \<^verbatim>\<open>_create_connection\<close> with the lock held
  (\<open>Connecting\<close>), or in the unbounded \<^verbatim>\<open>get\<close> (\<open>Queued\<close>). \<open>held\<close> are the
  connections it has acquired and not released.
\<close>

datatype pc = Idle | Polling | AtLock | Connecting | Queued

record task =
  pc :: pc
  held :: "nat list"

record system =
  sworld :: world
  tasks :: "task list"

datatype event =
    CallAcquire nat
  | GetItem nat
  | PollTimeout nat
  | EnterLock nat
  | ConnectDone nat connect_outcome
  | CallRelease nat nat

text \<open>
  One atomic step of task \<open>t\<close>; \<open>None\<close> when the event cannot happen in the state.
  Taking the lock and testing \<^verbatim>\<open>self._size < self.max_size\<close> are one step (no \<^verbatim>\<open>await\<close>
  between them), and so are the return of \<^verbatim>\<open>connect\<close>, the increment of \<^verbatim>\<open>_size\<close> and
  the release of the lock. \<^verbatim>\<open>release\<close> tests nothing: any task may hand it any connection,
  at any time, and the connection is enqueued; the task no longer counts it as held if it
  did.
\<close>

definition set_task :: "nat \<Rightarrow> task \<Rightarrow> system \<Rightarrow> system" where
  "set_task t k s = s\<lparr>tasks := (tasks s)[t := k]\<rparr>"

definition set_locked :: "bool \<Rightarrow> world \<Rightarrow> world" where
  "set_locked b w = w\<lparr>cpool := (cpool w)\<lparr>locked := b\<rparr>\<rparr>"

fun step :: "event \<Rightarrow> system \<Rightarrow> system option" where
  "step (CallAcquire t) s =
     (if t < length (tasks s) \<and> pc (tasks s ! t) = Idle
      then Some (set_task t ((tasks s ! t)\<lparr>pc := Polling\<rparr>) s)
      else None)"
| "step (GetItem t) s =
     (if t < length (tasks s) \<and> (pc (tasks s ! t) = Polling \<or> pc (tasks s ! t) = Queued)
      then (case available (cpool (sworld s)) of
              [] \<Rightarrow> None
            | c # rest \<Rightarrow>
                Some (set_task t \<lparr>pc = Idle, held = c # held (tasks s ! t)\<rparr>
                        (s\<lparr>sworld := (sworld s)\<lparr>cpool := (cpool (sworld s))\<lparr>available := rest\<rparr>\<rparr>\<rparr>)))
      else None)"
| "step (PollTimeout t) s =
     (if t < length (tasks s) \<and> pc (tasks s ! t) = Polling
      then Some (set_task t ((tasks s ! t)\<lparr>pc := AtLock\<rparr>) s)
      else None)"
| "step (EnterLock t) s =
     (if t < length (tasks s) \<and> pc (tasks s ! t) = AtLock \<and> \<not> locked (cpool (sworld s))
      then (if pool_size (cpool (sworld s)) < max_size (cpool (sworld s))
            then Some (set_task t ((tasks s ! t)\<lparr>pc := Connecting\<rparr>)
                         (s\<lparr>sworld := set_locked True (sworld s)\<rparr>))
            else Some (set_task t ((tasks s ! t)\<lparr>pc := Queued\<rparr>) s))
      else None)"
| "step (ConnectDone t oc) s =
     (if t < length (tasks s) \<and> pc (tasks s ! t) = Connecting
      then (case create_connection oc (sworld s) of
              (Returns c, w') \<Rightarrow>
                Some (set_task t \<lparr>pc = Idle, held = c # held (tasks s ! t)\<rparr>
                        (s\<lparr>sworld := set_locked False w'\<rparr>))
            | (Raises e, w') \<Rightarrow>
                Some (set_task t ((tasks s ! t)\<lparr>pc := Idle\<rparr>) (s\<lparr>sworld := set_locked False w'\<rparr>))
            | (Blocks, w') \<Rightarrow> None)
      else None)"
| "step (CallRelease t c) s =
     (if t < length (tasks s)
      then Some (set_task t ((tasks s ! t)\<lparr>held := remove1 c (held (tasks s ! t))\<rparr>)
                   (s\<lparr>sworld := release c (sworld s)\<rparr>))
      else None)"

fun run :: "event list \<Rightarrow> system \<Rightarrow> system option" where
  "run [] s = Some s"
| "run (e # es) s = (case step e s of None \<Rightarrow> None | Some s' \<Rightarrow> run es s')"

text \<open>Connections checked out by the tasks, and the live ones: checked out plus idle.\<close>

definition checked_out :: "system \<Rightarrow> nat" where
  "checked_out s = sum_list (map (\<lambda>k. length (held k)) (tasks s))"

definition live_count :: "system \<Rightarrow> int" where
  "live_count s = int (checked_out s) + int (length (available (cpool (sworld s))))"

text \<open>\<open>n\<close> tasks that hold nothing, over the world a completed \<^verbatim>\<open>initialize\<close> left.\<close>

definition start :: "nat \<Rightarrow> world \<Rightarrow> system" where
  "start n w = \<lparr>sworld = w, tasks = replicate n \<lparr>pc = Idle, held = []\<rparr>\<rparr>"

text \<open>
  A release is matched when the task hands back a connection it has acquired and not yet
  released; a sequence of events is matched from a state when every release in it is, at
  the state it happens in.
\<close>

fun proper :: "event \<Rightarrow> system \<Rightarrow> bool" where
  "proper (CallRelease t c) s = (t < length (tasks s) \<and> c \<in> set (held (tasks s ! t)))"
| "proper e s = True"

fun matched :: "event list \<Rightarrow> system \<Rightarrow> bool" where
  "matched [] s = True"
| "matched (e # es) s =
     (proper e s \<and> (case step e s of None \<Rightarrow> True | Some s' \<Rightarrow> matched es s'))"

text \<open>
  For the proofs about the bounds of the pool: the number of tasks inside
  \<^verbatim>\<open>_create_connection\<close>; the invariant of the lock, that \<^verbatim>\<open>_size\<close> is at most
  \<^verbatim>\<open>max_size\<close> and below it while the one task that holds the lock is connecting; and the
  invariant of matched runs, that \<^verbatim>\<open>_size\<close> counts the live connections.
\<close>

definition connecting :: "system \<Rightarrow> nat" where
  "connecting s = sum_list (map (\<lambda>k. if pc k = Connecting then 1 else 0) (tasks s))"

definition lock_inv :: "system \<Rightarrow> bool" where
  "lock_inv s =
     (pool_size (cpool (sworld s)) \<le> max_size (cpool (sworld s)) \<and>
      (if locked (cpool (sworld s))
       then connecting s = 1 \<and> pool_size (cpool (sworld s)) < max_size (cpool (sworld s))
       else connecting s = 0))"

definition count_inv :: "system \<Rightarrow> bool" where
  "count_inv s = (pool_size (cpool (sworld s)) = live_count s)"

section \<open>client.py: Client\<close>

text \<open>
  \<^verbatim>\<open>Client.query\<close>: the \<^verbatim>\<open>finally\<close> releases the connection on both ways out of
  \<^verbatim>\<open>execute\<close>. The \<^verbatim>\<open>timeout\<close> argument is accepted and not used.
\<close>

definition query ::
  "env \<Rightarrow> string \<Rightarrow> json list option \<Rightarrow> string option \<Rightarrow> world \<Rightarrow> query_result outcome \<times> world" where
  "query en sql params tmo w =
     (case acquire en w of
        (Returns c, w1) \<Rightarrow>
          (case conn_execute en c sql params w1 of (r, w2) \<Rightarrow> (lift r, release c w2))
      | (Raises e, w1) \<Rightarrow> (Raises e, w1)
      | (Blocks, w1) \<Rightarrow> (Blocks, w1))"

definition query_at_seq ::
  "env \<Rightarrow> string \<Rightarrow> int \<Rightarrow> json list option \<Rightarrow> world \<Rightarrow> query_result outcome \<times> world" where
  "query_at_seq en sql sequence params w =
     query en (sql @ '' FOR SYSTEM_TIME AS OF @SEQ:'' @ str_int sequence) params None w"

text \<open>
  The timestamp of \<^verbatim>\<open>query_at_time\<close> is a string or a \<^verbatim>\<open>datetime\<close>; the latter is kept
  by the text \<^verbatim>\<open>isoformat()\<close> gives.
\<close>

datatype timestamp = TsStr string | TsDatetime string

definition query_at_time ::
  "env \<Rightarrow> string \<Rightarrow> timestamp \<Rightarrow> json list option \<Rightarrow> world \<Rightarrow> query_result outcome \<times> world" where
  "query_at_time en sql ts params w =
     (let t = (case ts of TsDatetime d \<Rightarrow> d | TsStr s \<Rightarrow> s)
      in query en (sql @ '' FOR SYSTEM_TIME AS OF '' @ [CHR 0x27] @ t @ [CHR 0x27]) params None w)"

text \<open>\<^verbatim>\<open>Client.execute\<close>.\<close>

definition client_execute ::
  "env \<Rightarrow> string \<Rightarrow> json list option \<Rightarrow> world \<Rightarrow> int outcome \<times> world" where
  "client_execute en sql params w =
     (case query en sql params None w of
        (Returns r, w') \<Rightarrow> (Returns (row_count r), w')
      | (Raises e, w') \<Rightarrow> (Raises e, w')
      | (Blocks, w') \<Rightarrow> (Blocks, w'))"

section \<open>client.py: Transaction\<close>

text \<open>
  A \<^verbatim>\<open>Transaction\<close> has the pool and \<^verbatim>\<open>_conn\<close>, a reference or \<^verbatim>\<open>None\<close>; the class keeps
  no record of having committed or rolled back, and nothing sets \<^verbatim>\<open>_conn\<close> back.
\<close>

record transaction =
  conn :: "nat option"

text \<open>\<^verbatim>\<open>Client.transaction\<close>.\<close>

definition transaction_new :: transaction where
  "transaction_new = \<lparr>conn = None\<rparr>"

text \<open>\<^verbatim>\<open>__aenter__\<close>: \<^verbatim>\<open>_conn\<close> is assigned before \<^verbatim>\<open>BEGIN TRANSACTION\<close> is executed.\<close>

definition aenter :: "env \<Rightarrow> transaction \<Rightarrow> world \<Rightarrow> unit outcome \<times> transaction \<times> world" where
  "aenter en tx w =
     (case acquire en w of
        (Returns c, w1) \<Rightarrow>
          (case conn_execute en c ''BEGIN TRANSACTION'' None w1 of
             (Inl e, w2) \<Rightarrow> (Raises e, tx\<lparr>conn := Some c\<rparr>, w2)
           | (Inr r, w2) \<Rightarrow> (Returns (), tx\<lparr>conn := Some c\<rparr>, w2))
      | (Raises e, w1) \<Rightarrow> (Raises e, tx, w1)
      | (Blocks, w1) \<Rightarrow> (Blocks, tx, w1))"

text \<open>
  \<^verbatim>\<open>__aexit__\<close>; \<open>failed\<close> says that \<^verbatim>\<open>exc_type\<close> is not \<^verbatim>\<open>None\<close>. With \<^verbatim>\<open>_conn\<close> unset
  the attribute access raises and the \<^verbatim>\<open>finally\<close> has nothing to release.
\<close>

definition aexit :: "env \<Rightarrow> transaction \<Rightarrow> bool \<Rightarrow> world \<Rightarrow> unit outcome \<times> world" where
  "aexit en tx failed w =
     (case conn tx of
        None \<Rightarrow>
          (Raises (BuiltinError ''AttributeError''
                     ([CHR 0x27] @ ''NoneType'' @ [CHR 0x27] @ '' object has no attribute '' @
                      [CHR 0x27] @ ''execute'' @ [CHR 0x27])), w)
      | Some c \<Rightarrow>
          (case conn_execute en c (if \<not> failed then ''COMMIT'' else ''ROLLBACK'') None w of
             (Inl e, w1) \<Rightarrow> (Raises e, release c w1)
           | (Inr r, w1) \<Rightarrow> (Returns (), release c w1)))"

text \<open>\<^verbatim>\<open>Transaction.execute\<close>, \<^verbatim>\<open>commit\<close> and \<^verbatim>\<open>rollback\<close>.\<close>

definition tx_execute ::
  "env \<Rightarrow> transaction \<Rightarrow> string \<Rightarrow> json list option \<Rightarrow> world \<Rightarrow> query_result outcome \<times> world" where
  "tx_execute en tx sql params w =
     (case conn tx of
        None \<Rightarrow> (Raises (QueryError ''Transaction not started''), w)
      | Some c \<Rightarrow> (case conn_execute en c sql params w of (r, w1) \<Rightarrow> (lift r, w1)))"

definition tx_commit :: "env \<Rightarrow> transaction \<Rightarrow> world \<Rightarrow> unit outcome \<times> world" where
  "tx_commit en tx w =
     (case conn tx of
        None \<Rightarrow> (Raises (QueryError ''Transaction not started''), w)
      | Some c \<Rightarrow>
          (case conn_execute en c ''COMMIT'' None w of
             (Inl e, w1) \<Rightarrow> (Raises e, w1)
           | (Inr r, w1) \<Rightarrow> (Returns (), w1)))"

definition tx_rollback :: "env \<Rightarrow> transaction \<Rightarrow> world \<Rightarrow> unit outcome \<times> world" where
  "tx_rollback en tx w =
     (case conn tx of
        None \<Rightarrow> (Raises (QueryError ''Transaction not started''), w)
      | Some c \<Rightarrow>
          (case conn_execute en c ''ROLLBACK'' None w of
             (Inl e, w1) \<Rightarrow> (Raises e, w1)
           | (Inr r, w1) \<Rightarrow> (Returns (), w1)))"

subsection \<open>The transaction scope\<close>

text \<open>
  The body of \<^verbatim>\<open>async with client.transaction() as tx:\<close> is a sequence of calls on
  \<open>tx\<close>, or an exception of the caller's own work; the first call that raises ends it.
\<close>

datatype tx_op =
    Execute string "json list option"
  | Commit
  | Rollback
  | Fail error

fun run_op :: "env \<Rightarrow> transaction \<Rightarrow> tx_op \<Rightarrow> world \<Rightarrow> unit outcome \<times> world" where
  "run_op en tx (Execute sql params) w =
     (case tx_execute en tx sql params w of
        (Returns r, w') \<Rightarrow> (Returns (), w')
      | (Raises e, w') \<Rightarrow> (Raises e, w')
      | (Blocks, w') \<Rightarrow> (Blocks, w'))"
| "run_op en tx Commit w = tx_commit en tx w"
| "run_op en tx Rollback w = tx_rollback en tx w"
| "run_op en tx (Fail e) w = (Raises e, w)"

fun run_body :: "env \<Rightarrow> transaction \<Rightarrow> tx_op list \<Rightarrow> world \<Rightarrow> unit outcome \<times> world" where
  "run_body en tx [] w = (Returns (), w)"
| "run_body en tx (x # xs) w =
     (case run_op en tx x w of
        (Returns u, w') \<Rightarrow> run_body en tx xs w'
      | (Raises e, w') \<Rightarrow> (Raises e, w')
      | (Blocks, w') \<Rightarrow> (Blocks, w'))"

text \<open>
  The \<^verbatim>\<open>async with\<close> statement: when \<^verbatim>\<open>__aenter__\<close> raises, \<^verbatim>\<open>__aexit__\<close> is not called;
  after the body, \<^verbatim>\<open>__aexit__\<close> is called with the body's exception if it raised one,
  which is raised again unless \<^verbatim>\<open>__aexit__\<close> raises itself (it returns \<^verbatim>\<open>None\<close>).
\<close>

definition with_transaction ::
  "env \<Rightarrow> tx_op list \<Rightarrow> world \<Rightarrow> unit outcome \<times> transaction \<times> world" where
  "with_transaction en body w =
     (case aenter en transaction_new w of
        (Returns u, tx, w1) \<Rightarrow>
          (case run_body en tx body w1 of
             (Returns u', w2) \<Rightarrow> (case aexit en tx False w2 of (r, w3) \<Rightarrow> (r, tx, w3))
           | (Raises e, w2) \<Rightarrow>
               (case aexit en tx True w2 of
                  (Returns u', w3) \<Rightarrow> (Raises e, tx, w3)
                | (r, w3) \<Rightarrow> (r, tx, w3))
           | (Blocks, w2) \<Rightarrow> (Blocks, tx, w2))
      | (r, tx, w1) \<Rightarrow> (r, tx, w1))"

text \<open>The statement a call of the body executes on the connection.\<close>

fun stmt_of :: "tx_op \<Rightarrow> string" where
  "stmt_of (Execute sql params) = sql"
| "stmt_of Commit = ''COMMIT''"
| "stmt_of Rollback = ''ROLLBACK''"
| "stmt_of (Fail e) = []"

text \<open>The statements written on connection \<open>c\<close>, in order.\<close>

definition sent_on :: "nat \<Rightarrow> world \<Rightarrow> string list" where
  "sent_on c w = map (\<lambda>m. msg_query (snd m)) (filter (\<lambda>m. fst m = c) (wire w))"

section \<open>Scenarios\<close>

text \<open>
  Concrete servers and pools on which the properties below are run: a server that answers
  every request with two rows, one that answers with an error response, one whose answer
  is not JSON, a link that breaks on sending, and a transport whose \<^verbatim>\<open>wait_closed\<close>
  raises. \<open>idle_world\<close> is a pool of one to two connections after \<^verbatim>\<open>initialize\<close>,
  \<open>busy_world\<close> the same with its connection checked out.
\<close>

definition reply_rows :: json where
  "reply_rows =
     JObj [(''type'', JStr ''result''), (''columns'', JArr [JStr ''id'']),
           (''rows'', JArr [JObj [(''id'', JInt 1)], JObj [(''id'', JInt 2)]])]"

definition reply_error :: json where
  "reply_error = JObj [(''type'', JStr ''error''), (''message'', JStr ''no such table'')]"

definition env_of :: "(nat \<Rightarrow> exchange) \<Rightarrow> (nat \<Rightarrow> close_outcome) \<Rightarrow> env" where
  "env_of srv cl =
     \<lparr>server = srv, connector = (\<lambda>n. Established), closer = cl, py_repr = py_type_name\<rparr>"

definition env_ok :: env where
  "env_ok = env_of (\<lambda>n. Reply reply_rows) (\<lambda>n. Closed)"

definition env_error :: env where
  "env_error = env_of (\<lambda>n. Reply reply_error) (\<lambda>n. Closed)"

definition env_garbled :: env where
  "env_garbled =
     env_of (\<lambda>n. BadJson ''Expecting value: line 1 column 1 (char 0)'') (\<lambda>n. Closed)"

definition env_broken :: env where
  "env_broken = env_of (\<lambda>n. SendFault ''Connection lost'') (\<lambda>n. Closed)"

definition env_reset :: env where
  "env_reset =
     env_of (\<lambda>n. Reply reply_rows) (\<lambda>n. CloseFault ''ConnectionResetError'' ''Connection lost'')"

definition idle_world :: world where
  "idle_world = snd (initialize env_ok (new_world (new_pool ''localhost'' 5432 1 2 ''10.0'')))"

definition busy_world :: world where
  "busy_world = snd (acquire env_ok idle_world)"

definition bound_tx :: transaction where
  "bound_tx = \<lparr>conn = Some 0\<rparr>"

text \<open>A transaction whose scope has been left without a failure, and the world after it.\<close>

definition finished_tx :: transaction where
  "finished_tx = fst (snd (with_transaction env_ok [] idle_world))"

definition finished_world :: world where
  "finished_world = snd (snd (with_transaction env_ok [] idle_world))"

text \<open>The body of the usage example in the docstring of \<^verbatim>\<open>Client\<close>.\<close>

definition documented_body :: "tx_op list" where
  "documented_body =
     [Execute ''INSERT INTO users VALUES (?, ?)'' (Some [JInt 1, JStr ''Alice'']),
      Execute ''INSERT INTO users VALUES (?, ?)'' (Some [JInt 2, JStr ''Bob'']),
      Commit]"

text \<open>
  Three tasks racing for a pool of one to two connections: the first takes the idle
  connection, the second times out and creates one under the lock, the third times out,
  finds the pool at capacity and waits until the first releases.
\<close>

definition race_events :: "event list" where
  "race_events =
     [CallAcquire 0, CallAcquire 1, GetItem 0, PollTimeout 1, CallAcquire 2, PollTimeout 2,
      EnterLock 1, ConnectDone 1 Established, EnterLock 2, CallRelease 0 0, GetItem 2,
      CallRelease 1 1]"

text \<open>One task that acquires the idle connection and releases it three times.\<close>

definition double_release_events :: "event list" where
  "double_release_events =
     [CallAcquire 0, GetItem 0, CallRelease 0 0, CallRelease 0 0, CallRelease 0 0]"

text \<open>A pool constructed with \<^verbatim>\<open>min_size=-2, max_size=-1\<close>, after \<^verbatim>\<open>initialize\<close>.\<close>

definition negative_world :: world where
  "negative_world =
     snd (initialize env_ok (new_world (new_pool ''localhost'' 5432 (- 2) (- 1) ''10.0'')))"

section \<open>Properties\<close>

lemmas model_defs =
  initialize_def new_world_def new_pool_def create_connection_def connect_def
  new_connection_def release_def acquire_def conn_execute_def parse_response_def dict_get_def
  query_message_def py_str_def query_def aenter_def aexit_def tx_execute_def tx_commit_def
  tx_rollback_def with_transaction_def transaction_new_def sent_on_def conn_close_def
  client_execute_def len_result_def getitem_def

lemmas scenario_defs =
  model_defs reply_rows_def reply_error_def env_of_def env_ok_def env_error_def
  env_garbled_def env_broken_def env_reset_def idle_world_def busy_world_def bound_tx_def
  finished_tx_def finished_world_def documented_body_def race_events_def negative_world_def
  double_release_events_def

subsection \<open>What an exchange changes\<close>

lemma conn_execute_cpool: "cpool (snd (conn_execute en c q ps w)) = cpool w"
  by (simp add: conn_execute_def Let_def split: exchange.splits)

lemma conn_execute_heap: "heap (snd (conn_execute en c q ps w)) = heap w"
  by (simp add: conn_execute_def Let_def split: exchange.splits)

lemma conn_execute_wire:
  "wire (snd (conn_execute en c q ps w)) =
     (if connected (heap w ! c) then wire w @ [(c, query_message q ps)] else wire w)"
  by (simp add: conn_execute_def Let_def split: exchange.splits)

lemma parse_response_cases:
  "(\<exists>m. parse_response en v = Inl (QueryError m)) \<or>
   (\<exists>r. parse_response en v = Inr r \<and> row_count r = int (length (rows r)))"
  by (auto simp: parse_response_def split: json.splits option.splits)

lemma parse_response_rows:
  "parse_response en v = Inr r \<Longrightarrow>
   \<exists>kvs items. v = JObj kvs \<and> py_iter (dict_get kvs ''rows'' (JArr [])) = Some items \<and>
      rows r = map Row items \<and> row_count r = int (length items)"
  by (auto simp: parse_response_def split: json.splits option.splits if_splits)

lemma conn_execute_result:
  "conn_execute en c q ps w = (Inr r, w') \<Longrightarrow>
   connected (heap w ! c) \<and> (\<exists>v. server en (clock w) = Reply v \<and> parse_response en v = Inr r)"
  by (auto simp: conn_execute_def Let_def split: exchange.splits if_splits)

subsection \<open>Transaction exit\<close>

lemma aexit_bound:
  "conn tx = Some c \<Longrightarrow>
   aexit en tx failed w =
     ((case fst (conn_execute en c (if failed then ''ROLLBACK'' else ''COMMIT'') None w) of
         Inl e \<Rightarrow> Raises e | Inr r \<Rightarrow> Returns ()),
      release c (snd (conn_execute en c (if failed then ''ROLLBACK'' else ''COMMIT'') None w)))"
  by (cases failed) (auto simp: aexit_def split: prod.splits sum.splits)

text \<open>
  C4. Leaving a transaction that has a bound connection executes \<^verbatim>\<open>COMMIT\<close> on that
  connection when the scope raised nothing and \<^verbatim>\<open>ROLLBACK\<close> when it raised; the outcome of
  the exit is the outcome of that call; and whether the call returned or failed, the
  connection is appended to the pool's queue. The statement is written on the wire
  whenever the connection is still connected.
\<close>

theorem aexit_commits_or_rolls_back_and_releases:
  assumes "conn tx = Some c"
  shows "available (cpool (snd (aexit en tx failed w))) = available (cpool w) @ [c] \<and>
         fst (aexit en tx failed w) =
           (case fst (conn_execute en c (if failed then ''ROLLBACK'' else ''COMMIT'') None w) of
              Inl e \<Rightarrow> Raises e | Inr r \<Rightarrow> Returns ()) \<and>
         wire (snd (aexit en tx failed w)) =
           (if connected (heap w ! c)
            then wire w @ [(c, query_message (if failed then ''ROLLBACK'' else ''COMMIT'') None)]
            else wire w)"
proof -
  obtain r w1 where
    ex: "conn_execute en c (if failed then ''ROLLBACK'' else ''COMMIT'') None w = (r, w1)"
    by (cases "conn_execute en c (if failed then ''ROLLBACK'' else ''COMMIT'') None w")
  have pool1: "cpool w1 = cpool w"
    using conn_execute_cpool [of en c "if failed then ''ROLLBACK'' else ''COMMIT''" None w] ex
    by simp
  have wire1: "wire w1 =
      (if connected (heap w ! c)
       then wire w @ [(c, query_message (if failed then ''ROLLBACK'' else ''COMMIT'') None)]
       else wire w)"
    using conn_execute_wire [of en c "if failed then ''ROLLBACK'' else ''COMMIT''" None w] ex
    by simp
  have exit: "aexit en tx failed w =
      ((case r of Inl e \<Rightarrow> Raises e | Inr r \<Rightarrow> Returns ()), release c w1)"
    using assms ex by (cases failed; cases r) (simp_all add: aexit_def)
  show ?thesis
    using exit ex pool1 wire1 by (simp add: release_def)
qed

theorem aexit_commits_or_rolls_back_and_releases_witness:
  "conn bound_tx = Some 0 \<and>
   available (cpool busy_world) = [] \<and>
   available (cpool (snd (aexit env_error bound_tx False busy_world))) = [0] \<and>
   fst (aexit env_error bound_tx False busy_world) =
     Raises (QueryError ''Query execution failed: no such table'') \<and>
   sent_on 0 (snd (aexit env_error bound_tx False busy_world)) = [''COMMIT''] \<and>
   available (cpool (snd (aexit env_ok bound_tx True busy_world))) = [0] \<and>
   fst (aexit env_ok bound_tx True busy_world) = Returns () \<and>
   sent_on 0 (snd (aexit env_ok bound_tx True busy_world)) = [''ROLLBACK'']"
  using aexit_commits_or_rolls_back_and_releases [of bound_tx 0 env_error False busy_world]
        aexit_commits_or_rolls_back_and_releases [of bound_tx 0 env_ok True busy_world]
  by (simp add: scenario_defs)

subsection \<open>Calls on a transaction outside its scope\<close>

text \<open>
  C5, as the code has it. On a transaction that was never entered (\<^verbatim>\<open>_conn\<close> is
  \<^verbatim>\<open>None\<close>), \<^verbatim>\<open>execute\<close>, \<^verbatim>\<open>commit\<close> and \<^verbatim>\<open>rollback\<close> raise
  \<^verbatim>\<open>QueryError("Transaction not started")\<close> and leave the world as it was: nothing is
  written on any connection.
\<close>

theorem tx_not_started:
  assumes "conn tx = None"
  shows "tx_execute en tx sql params w = (Raises (QueryError ''Transaction not started''), w) \<and>
         tx_commit en tx w = (Raises (QueryError ''Transaction not started''), w) \<and>
         tx_rollback en tx w = (Raises (QueryError ''Transaction not started''), w)"
  using assms by (simp add: tx_execute_def tx_commit_def tx_rollback_def)

theorem tx_not_started_witness:
  "conn transaction_new = None \<and>
   tx_execute env_ok transaction_new ''SELECT 1'' None idle_world =
     (Raises (QueryError ''Transaction not started''), idle_world) \<and>
   tx_commit env_ok transaction_new idle_world =
     (Raises (QueryError ''Transaction not started''), idle_world) \<and>
   tx_rollback env_ok transaction_new idle_world =
     (Raises (QueryError ''Transaction not started''), idle_world)"
  using tx_not_started [of transaction_new env_ok "''SELECT 1''" None idle_world]
  by (simp add: transaction_new_def)

text \<open>
  C5 as stated fails on a transaction that has already committed: after the scope has
  been left and the connection is back in the pool, \<^verbatim>\<open>execute\<close> and \<^verbatim>\<open>commit\<close> on the same
  transaction raise nothing and write on that connection. And what a transaction that was
  never entered raises is a \<^verbatim>\<open>QueryError\<close>, not the \<^verbatim>\<open>TransactionError\<close> of
  \<^verbatim>\<open>exceptions.py\<close>, which nothing raises.
\<close>

theorem tx_after_commit_counterexample:
  "fst (with_transaction env_ok [] idle_world) = Returns () \<and>
   sent_on 0 finished_world = [''BEGIN TRANSACTION'', ''COMMIT''] \<and>
   available (cpool finished_world) = [0] \<and>
   fst (tx_execute env_ok finished_tx ''SELECT 1'' None finished_world) \<noteq>
     Raises (QueryError ''Transaction not started'') \<and>
   fst (tx_execute env_ok finished_tx ''SELECT 1'' None finished_world) \<noteq>
     Raises (TransactionError ''Transaction not started'') \<and>
   sent_on 0 (snd (tx_execute env_ok finished_tx ''SELECT 1'' None finished_world)) =
     [''BEGIN TRANSACTION'', ''COMMIT'', ''SELECT 1''] \<and>
   fst (tx_commit env_ok finished_tx finished_world) = Returns () \<and>
   sent_on 0 (snd (tx_commit env_ok finished_tx finished_world)) =
     [''BEGIN TRANSACTION'', ''COMMIT'', ''COMMIT''] \<and>
   fst (tx_execute env_ok transaction_new ''SELECT 1'' None idle_world) \<noteq>
     Raises (TransactionError ''Transaction not started'')"
  by (simp add: scenario_defs)

subsection \<open>Closing a connection\<close>

text \<open>
  C9, as the code has it. For a connection without a stream writer, and for any connection
  as long as the writer's own \<^verbatim>\<open>close\<close>/\<^verbatim>\<open>wait_closed\<close> do not raise, \<^verbatim>\<open>Connection.close\<close>
  returns and leaves the connection not connected, and a second call returns as well and
  changes no connection.
\<close>

theorem close_idempotent:
  assumes "c < length (heap w)"
      and "\<not> has_writer (heap w ! c) \<or> (\<forall>n. closer en n = Closed)"
  shows "fst (conn_close en c w) = Returns () \<and>
         \<not> connected (heap (snd (conn_close en c w)) ! c) \<and>
         fst (conn_close en c (snd (conn_close en c w))) = Returns () \<and>
         heap (snd (conn_close en c (snd (conn_close en c w)))) = heap (snd (conn_close en c w))"
  using assms by (auto simp: conn_close_def split: close_outcome.splits)

theorem close_idempotent_witness:
  "0 < length (heap idle_world) \<and> (\<forall>n. closer env_ok n = Closed) \<and>
   fst (conn_close env_ok 0 idle_world) = Returns () \<and>
   \<not> connected (heap (snd (conn_close env_ok 0 idle_world)) ! 0) \<and>
   fst (conn_close env_ok 0 (snd (conn_close env_ok 0 idle_world))) = Returns ()"
  using close_idempotent [of 0 idle_world env_ok]
  by (simp add: scenario_defs)

text \<open>
  C9 as stated fails when the writer raises: \<^verbatim>\<open>close\<close> catches nothing, so the exception
  leaves it and \<^verbatim>\<open>_connected\<close> stays set.
\<close>

theorem close_raises_counterexample:
  "connected (heap idle_world ! 0) \<and>
   fst (conn_close env_reset 0 idle_world) =
     Raises (BuiltinError ''ConnectionResetError'' ''Connection lost'') \<and>
   connected (heap (snd (conn_close env_reset 0 idle_world)) ! 0)"
  by (simp add: scenario_defs)

subsection \<open>Client.query\<close>

text \<open>
  C6. \<^verbatim>\<open>Client.query\<close> calls \<^verbatim>\<open>acquire\<close> once. When that yields a connection, the outcome
  of the query is the outcome of \<^verbatim>\<open>execute\<close> on it (its result returned, its failure
  raised) and in both cases that connection is appended to the queue, the pool's size
  unchanged: a connection taken from the head of the queue is back at its end. When
  \<^verbatim>\<open>acquire\<close> raises or never returns, so does the query, and nothing was checked out.
\<close>

theorem query_releases_on_every_path:
  "(acquire en w = (Returns c, w1) \<longrightarrow>
      fst (query en sql ps tmo w) = lift (fst (conn_execute en c sql ps w1)) \<and>
      available (cpool (snd (query en sql ps tmo w))) = available (cpool w1) @ [c] \<and>
      pool_size (cpool (snd (query en sql ps tmo w))) = pool_size (cpool w1)) \<and>
   (available (cpool w) = c # rest \<longrightarrow>
      available (cpool (snd (query en sql ps tmo w))) = rest @ [c] \<and>
      pool_size (cpool (snd (query en sql ps tmo w))) = pool_size (cpool w)) \<and>
   (acquire en w = (Raises e, w1) \<longrightarrow> query en sql ps tmo w = (Raises e, w1)) \<and>
   (acquire en w = (Blocks, w1) \<longrightarrow> query en sql ps tmo w = (Blocks, w1))"
proof -
  have a: "acquire en w = (Returns c, w1) \<Longrightarrow>
      query en sql ps tmo w = (lift (fst (conn_execute en c sql ps w1)),
                               release c (snd (conn_execute en c sql ps w1)))" for c w1
    by (simp add: query_def split: prod.splits)
  have b: "cpool (release c (snd (conn_execute en c sql ps w1))) =
             (cpool w1)\<lparr>available := available (cpool w1) @ [c]\<rparr>" for c w1
    using conn_execute_cpool [of en c sql ps w1] by (simp add: release_def)
  have c: "available (cpool w) = c # rest \<Longrightarrow>
             acquire en w = (Returns c, w\<lparr>cpool := (cpool w)\<lparr>available := rest\<rparr>\<rparr>)"
    by (simp add: acquire_def)
  show ?thesis
    using a [of c w1] b [of c w1] a [OF c] b [of c "w\<lparr>cpool := (cpool w)\<lparr>available := rest\<rparr>\<rparr>"]
    by (auto simp: query_def)
qed

theorem query_releases_on_every_path_witness:
  "acquire env_error idle_world = (Returns 0, busy_world) \<and>
   available (cpool idle_world) = [0] \<and>
   available (cpool busy_world) = [] \<and>
   fst (query env_error ''SELECT * FROM missing'' None None idle_world) =
     Raises (QueryError ''Query execution failed: no such table'') \<and>
   available (cpool (snd (query env_error ''SELECT * FROM missing'' None None idle_world))) = [0] \<and>
   fst (query env_ok ''SELECT * FROM users'' None None idle_world) =
     lift (fst (conn_execute env_ok 0 ''SELECT * FROM users'' None busy_world)) \<and>
   available (cpool (snd (query env_ok ''SELECT * FROM users'' None None idle_world))) = [0]"
  using query_releases_on_every_path
          [of env_error idle_world 0 busy_world "''SELECT * FROM missing''" None None "[]"]
        query_releases_on_every_path
          [of env_ok idle_world 0 busy_world "''SELECT * FROM users''" None None "[]"]
  by (simp add: scenario_defs)

subsection \<open>Connection.execute\<close>

text \<open>
  C8. On a connected connection: an error response makes \<^verbatim>\<open>execute\<close> raise \<^verbatim>\<open>QueryError\<close>
  whose text is the server's message (or \<^verbatim>\<open>Unknown error\<close> when there is none) behind the
  prefix the outer handler adds, a string message verbatim; a response that is not JSON
  makes it raise \<^verbatim>\<open>QueryError\<close> with the decoder's message behind
  \<^verbatim>\<open>Invalid response from server: \<close>; a fault in sending or receiving makes it raise
  \<^verbatim>\<open>QueryError\<close>; a response that is an object, is not tagged as an error and has rows that
  can be iterated makes it return the result built from that response; and every call
  either raises \<^verbatim>\<open>QueryError\<close> or returns a result all of whose fields come from the
  response.
\<close>

theorem execute_failure_kinds:
  assumes "connected (heap w ! c)"
  shows "(server en (clock w) = Reply (JObj kvs) \<and> dict_get kvs ''type'' JNull = JStr ''error'' \<and>
            dict_get kvs ''message'' (JStr ''Unknown error'') = JStr m \<longrightarrow>
          fst (conn_execute en c q ps w) = Inl (QueryError (''Query execution failed: '' @ m))) \<and>
         (server en (clock w) = Reply (JObj kvs) \<and> dict_get kvs ''type'' JNull = JStr ''error'' \<longrightarrow>
          fst (conn_execute en c q ps w) =
            Inl (QueryError (''Query execution failed: '' @
                   py_str en (dict_get kvs ''message'' (JStr ''Unknown error''))))) \<and>
         (server en (clock w) = BadJson e \<longrightarrow>
          fst (conn_execute en c q ps w) = Inl (QueryError (''Invalid response from server: '' @ e))) \<and>
         (server en (clock w) = SendFault e \<or> server en (clock w) = RecvFault e \<longrightarrow>
          fst (conn_execute en c q ps w) = Inl (QueryError (''Query execution failed: '' @ e))) \<and>
         (server en (clock w) = Reply (JObj kvs) \<and> dict_get kvs ''type'' JNull \<noteq> JStr ''error'' \<and>
            py_iter (dict_get kvs ''rows'' (JArr [])) = Some its \<longrightarrow>
          fst (conn_execute en c q ps w) =
            Inr \<lparr>rows = map Row its, row_count = int (length its),
                 columns = dict_get kvs ''columns'' (JArr []),
                 execution_time_ms = dict_get kvs ''execution_time_ms'' JNull\<rparr>) \<and>
         ((\<exists>msg. fst (conn_execute en c q ps w) = Inl (QueryError msg)) \<or>
          (\<exists>r obj items. fst (conn_execute en c q ps w) = Inr r \<and>
             server en (clock w) = Reply (JObj obj) \<and>
             py_iter (dict_get obj ''rows'' (JArr [])) = Some items \<and>
             rows r = map Row items \<and> row_count r = int (length items) \<and>
             columns r = dict_get obj ''columns'' (JArr []) \<and>
             execution_time_ms r = dict_get obj ''execution_time_ms'' JNull))"
proof -
  have reply: "fst (conn_execute en c q ps w) = parse_response en v"
    if "server en (clock w) = Reply v" for v
    using assms that by (simp add: conn_execute_def Let_def)
  have general: "fst (conn_execute en c q ps w) =
            Inl (QueryError (''Query execution failed: '' @
                   py_str en (dict_get kvs ''message'' (JStr ''Unknown error''))))"
    if "server en (clock w) = Reply (JObj kvs)" "dict_get kvs ''type'' JNull = JStr ''error''"
    using reply [OF that(1)] that(2) by (simp add: parse_response_def)
  have tagged: "fst (conn_execute en c q ps w) = Inl (QueryError (''Query execution failed: '' @ m))"
    if "server en (clock w) = Reply (JObj kvs)" "dict_get kvs ''type'' JNull = JStr ''error''"
       "dict_get kvs ''message'' (JStr ''Unknown error'') = JStr m"
    using general [OF that(1,2)] that(3) by (simp add: py_str_def)
  have garbled: "server en (clock w) = BadJson e \<Longrightarrow>
          fst (conn_execute en c q ps w) = Inl (QueryError (''Invalid response from server: '' @ e))"
    using assms by (simp add: conn_execute_def Let_def)
  have fault: "server en (clock w) = SendFault e \<or> server en (clock w) = RecvFault e \<Longrightarrow>
          fst (conn_execute en c q ps w) = Inl (QueryError (''Query execution failed: '' @ e))"
    using assms by (auto simp: conn_execute_def Let_def)
  have success: "fst (conn_execute en c q ps w) =
            Inr \<lparr>rows = map Row its, row_count = int (length its),
                 columns = dict_get kvs ''columns'' (JArr []),
                 execution_time_ms = dict_get kvs ''execution_time_ms'' JNull\<rparr>"
    if "server en (clock w) = Reply (JObj kvs)" "dict_get kvs ''type'' JNull \<noteq> JStr ''error''"
       "py_iter (dict_get kvs ''rows'' (JArr [])) = Some its"
    using reply [OF that(1)] that(2,3) by (simp add: parse_response_def)
  have total: "(\<exists>msg. fst (conn_execute en c q ps w) = Inl (QueryError msg)) \<or>
          (\<exists>r obj items. fst (conn_execute en c q ps w) = Inr r \<and>
             server en (clock w) = Reply (JObj obj) \<and>
             py_iter (dict_get obj ''rows'' (JArr [])) = Some items \<and>
             rows r = map Row items \<and> row_count r = int (length items) \<and>
             columns r = dict_get obj ''columns'' (JArr []) \<and>
             execution_time_ms r = dict_get obj ''execution_time_ms'' JNull)"
  proof (cases "server en (clock w)")
    case (Reply v)
    have ex: "fst (conn_execute en c q ps w) = parse_response en v"
      using reply [OF Reply] .
    show ?thesis
    proof (cases "parse_response en v")
      case (Inl err)
      then show ?thesis using ex parse_response_cases [of en v] by auto
    next
      case (Inr r)
      then show ?thesis using ex Reply
        by (auto simp: parse_response_def split: json.splits option.splits if_splits)
    qed
  qed (use assms in \<open>simp_all add: conn_execute_def Let_def\<close>)
  show ?thesis using tagged general garbled fault success total by blast
qed

theorem execute_failure_kinds_witness:
  "connected (heap busy_world ! 0) \<and>
   server env_error (clock busy_world) = Reply reply_error \<and>
   fst (conn_execute env_error 0 ''SELECT * FROM missing'' None busy_world) =
     Inl (QueryError ''Query execution failed: no such table'') \<and>
   fst (conn_execute (env_of (\<lambda>n. Reply (JObj [(''type'', JStr ''error'')])) (\<lambda>n. Closed)) 0
          ''SELECT 1'' None busy_world) =
     Inl (QueryError ''Query execution failed: Unknown error'') \<and>
   server env_garbled (clock busy_world) = BadJson ''Expecting value: line 1 column 1 (char 0)'' \<and>
   fst (conn_execute env_garbled 0 ''SELECT 1'' None busy_world) =
     Inl (QueryError ''Invalid response from server: Expecting value: line 1 column 1 (char 0)'') \<and>
   server env_broken (clock busy_world) = SendFault ''Connection lost'' \<and>
   fst (conn_execute env_broken 0 ''SELECT 1'' None busy_world) =
     Inl (QueryError ''Query execution failed: Connection lost'') \<and>
   server env_ok (clock busy_world) = Reply reply_rows \<and>
   fst (conn_execute env_ok 0 ''SELECT id FROM users'' None busy_world) =
     Inr \<lparr>rows = [Row (JObj [(''id'', JInt 1)]), Row (JObj [(''id'', JInt 2)])], row_count = 2,
          columns = JArr [JStr ''id''], execution_time_ms = JNull\<rparr>"
  using execute_failure_kinds
          [where w = busy_world and c = 0 and en = env_error and q = "''SELECT * FROM missing''"
             and ps = None and m = "''no such table''"
             and kvs = "[(''type'', JStr ''error''), (''message'', JStr ''no such table'')]"]
        execute_failure_kinds
          [where w = busy_world and c = 0 and q = "''SELECT 1''" and ps = None
             and en = "env_of (\<lambda>n. Reply (JObj [(''type'', JStr ''error'')])) (\<lambda>n. Closed)"
             and kvs = "[(''type'', JStr ''error'')]"]
        execute_failure_kinds
          [where w = busy_world and c = 0 and en = env_garbled and q = "''SELECT 1''" and ps = None
             and e = "''Expecting value: line 1 column 1 (char 0)''"]
        execute_failure_kinds
          [where w = busy_world and c = 0 and en = env_broken and q = "''SELECT 1''" and ps = None
             and e = "''Connection lost''"]
        execute_failure_kinds
          [where w = busy_world and c = 0 and en = env_ok and q = "''SELECT id FROM users''"
             and ps = None
             and kvs = "[(''type'', JStr ''result''), (''columns'', JArr [JStr ''id'']),
                        (''rows'', JArr [JObj [(''id'', JInt 1)], JObj [(''id'', JInt 2)]])]"
             and its = "[JObj [(''id'', JInt 1)], JObj [(''id'', JInt 2)]]"]
  by (simp add: scenario_defs)

text \<open>
  C10. A result that \<^verbatim>\<open>Connection.execute\<close> returns has \<open>row_count\<close> equal to the number of
  its rows, so \<^verbatim>\<open>len\<close> is that number and every index from 0 below \<open>row_count\<close> is in
  range; and the number \<^verbatim>\<open>Client.execute\<close> returns is the number of rows of the response
  the server gave to its request.
\<close>

theorem result_row_count:
  "(conn_execute en c q ps w = (Inr r, w') \<longrightarrow>
      row_count r = int (length (rows r)) \<and>
      len_result r = int (length (rows r)) \<and>
      (\<forall>i. 0 \<le> i \<and> i < row_count r \<longrightarrow> getitem r i = Inr (rows r ! nat i))) \<and>
   (client_execute en sql ps0 w0 = (Returns n, w'') \<longrightarrow>
      (\<exists>c1 w1 obj items. acquire en w0 = (Returns c1, w1) \<and>
         server en (clock w1) = Reply (JObj obj) \<and>
         py_iter (dict_get obj ''rows'' (JArr [])) = Some items \<and>
         n = int (length items)))"
proof -
  have one: "row_count r = int (length (rows r)) \<and> len_result r = int (length (rows r)) \<and>
      (\<forall>i. 0 \<le> i \<and> i < row_count r \<longrightarrow> getitem r i = Inr (rows r ! nat i))"
    if ex: "conn_execute en c q ps w = (Inr r, w')"
  proof -
    obtain v where "parse_response en v = Inr r"
      using conn_execute_result [OF ex] by blast
    then have "row_count r = int (length (rows r))"
      using parse_response_rows [of en v r] by auto
    then show ?thesis by (simp add: len_result_def getitem_def)
  qed
  have two: "\<exists>c1 w1 obj items. acquire en w0 = (Returns c1, w1) \<and>
         server en (clock w1) = Reply (JObj obj) \<and>
         py_iter (dict_get obj ''rows'' (JArr [])) = Some items \<and>
         n = int (length items)"
    if ce: "client_execute en sql ps0 w0 = (Returns n, w'')"
  proof -
    obtain r where q: "query en sql ps0 None w0 = (Returns r, w'')" and n: "n = row_count r"
      using ce by (auto simp: client_execute_def split: prod.splits outcome.splits)
    obtain c1 w1 where a: "acquire en w0 = (Returns c1, w1)"
      using q by (auto simp: query_def split: prod.splits outcome.splits)
    obtain res w2 where ex0: "conn_execute en c1 sql ps0 w1 = (res, w2)"
      by (cases "conn_execute en c1 sql ps0 w1")
    have "lift res = Returns r"
      using q a ex0 by (simp add: query_def)
    then have "res = Inr r" by (cases res) simp_all
    then have ex: "conn_execute en c1 sql ps0 w1 = (Inr r, w2)" using ex0 by simp
    obtain v where v: "server en (clock w1) = Reply v" "parse_response en v = Inr r"
      using conn_execute_result [OF ex] by blast
    show ?thesis
      using parse_response_rows [OF v(2)] v(1) a n by auto
  qed
  show ?thesis using one two by blast
qed

theorem result_row_count_witness:
  "fst (conn_execute env_ok 0 ''SELECT id FROM users'' None busy_world) =
     Inr \<lparr>rows = [Row (JObj [(''id'', JInt 1)]), Row (JObj [(''id'', JInt 2)])], row_count = 2,
          columns = JArr [JStr ''id''], execution_time_ms = JNull\<rparr> \<and>
   fst (client_execute env_ok ''SELECT id FROM users'' None idle_world) = Returns 2"
  using result_row_count
     [of env_ok 0 "''SELECT id FROM users''" None busy_world
         "\<lparr>rows = [Row (JObj [(''id'', JInt 1)]), Row (JObj [(''id'', JInt 2)])], row_count = 2,
          columns = JArr [JStr ''id''], execution_time_ms = JNull\<rparr>"
         "snd (conn_execute env_ok 0 ''SELECT id FROM users'' None busy_world)"
         "''SELECT id FROM users''" None idle_world 2
         "snd (client_execute env_ok ''SELECT id FROM users'' None idle_world)"]
  by (simp add: scenario_defs)

subsection \<open>Time travel\<close>

lemma below_ten:
  "k < 10 \<Longrightarrow> k = 0 \<or> k = 1 \<or> k = 2 \<or> k = 3 \<or> k = 4 \<or> k = 5 \<or> k = 6 \<or> k = 7 \<or> k = 8 \<or> k = (9::nat)"
  by arith

lemma digit_value_digit_char: "k < 10 \<Longrightarrow> digit_value (digit_char k) = k"
  by (auto dest!: below_ten simp: digit_value_def digit_char_def)

lemma digit_char_not_minus: "k < 10 \<Longrightarrow> digit_char k \<noteq> CHR ''-''"
  by (auto dest!: below_ten simp: digit_char_def)

lemma read_nat_snoc: "read_nat (s @ [ch]) = 10 * read_nat s + digit_value ch"
  by (simp add: read_nat_def)

lemma read_nat_digits: "read_nat (digits n) = n"
proof (induction n rule: digits.induct)
  case (1 n)
  show ?case
  proof (cases "n < 10")
    case True
    then have "digits n = [digit_char n]" by (simp add: digits.simps [of n])
    then show ?thesis
      using True by (simp add: read_nat_def digit_value_digit_char)
  next
    case False
    then have "digits n = digits (n div 10) @ [digit_char (n mod 10)]"
      by (simp add: digits.simps [of n])
    then have "read_nat (digits n) = 10 * read_nat (digits (n div 10)) + digit_value (digit_char (n mod 10))"
      by (simp add: read_nat_snoc)
    then show ?thesis
      using 1 False by (simp add: digit_value_digit_char)
  qed
qed

lemma digits_not_minus: "digits n \<noteq> [] \<and> hd (digits n) \<noteq> CHR ''-''"
proof (induction n rule: digits.induct)
  case (1 n)
  show ?case
  proof (cases "n < 10")
    case True
    then have "digits n = [digit_char n]" by (simp add: digits.simps [of n])
    then show ?thesis using True by (simp add: digit_char_not_minus)
  next
    case False
    then have "digits n = digits (n div 10) @ [digit_char (n mod 10)]"
      by (simp add: digits.simps [of n])
    then show ?thesis using 1 False by simp
  qed
qed

lemma read_int_str_int: "read_int (str_int i) = i"
proof (cases "i < 0")
  case True
  then show ?thesis by (simp add: read_int_def str_int_def read_nat_digits)
next
  case False
  obtain ch r where d: "digits (nat i) = ch # r" "ch \<noteq> CHR ''-''"
    using digits_not_minus [of "nat i"] by (cases "digits (nat i)") auto
  have "read_nat (ch # r) = nat i" using read_nat_digits [of "nat i"] d by simp
  then show ?thesis using False d by (simp add: read_int_def str_int_def)
qed

text \<open>
  C7. \<^verbatim>\<open>query_at_seq\<close> is \<^verbatim>\<open>query\<close> on the text \<open>sql\<close> followed by
  \<^verbatim>\<open> FOR SYSTEM_TIME AS OF @SEQ:\<close> and the decimal numeral of the sequence number (reading
  it back gives the number); \<^verbatim>\<open>query_at_time\<close> with a string is \<^verbatim>\<open>query\<close> on \<open>sql\<close> followed
  by \<^verbatim>\<open> FOR SYSTEM_TIME AS OF \<close> and the timestamp between single quotes, whatever its
  characters; and that text is what is written on the connection \<^verbatim>\<open>acquire\<close> yields.
\<close>

theorem time_travel_rewrite:
  "query_at_seq en sql n ps w =
     query en (sql @ '' FOR SYSTEM_TIME AS OF @SEQ:'' @ str_int n) ps None w \<and>
   read_int (str_int n) = n \<and>
   query_at_time en sql (TsStr ts) ps w =
     query en (sql @ '' FOR SYSTEM_TIME AS OF '' @ [CHR 0x27] @ ts @ [CHR 0x27]) ps None w \<and>
   (acquire en w = (Returns c, w1) \<and> connected (heap w1 ! c) \<longrightarrow>
      wire (snd (query_at_seq en sql n ps w)) =
        wire w1 @ [(c, query_message (sql @ '' FOR SYSTEM_TIME AS OF @SEQ:'' @ str_int n) ps)] \<and>
      wire (snd (query_at_time en sql (TsStr ts) ps w)) =
        wire w1 @ [(c, query_message
                         (sql @ '' FOR SYSTEM_TIME AS OF '' @ [CHR 0x27] @ ts @ [CHR 0x27]) ps)])"
proof -
  have sent: "wire (snd (query en stmt ps None w)) = wire w1 @ [(c, query_message stmt ps)]"
    if acq: "acquire en w = (Returns c, w1)" and con: "connected (heap w1 ! c)" for stmt
  proof -
    obtain r w2 where ex: "conn_execute en c stmt ps w1 = (r, w2)"
      by (cases "conn_execute en c stmt ps w1")
    have "wire w2 = wire w1 @ [(c, query_message stmt ps)]"
      using conn_execute_wire [of en c stmt ps w1] ex con by simp
    then show ?thesis
      using acq ex by (simp add: query_def release_def)
  qed
  show ?thesis
    using sent by (simp add: query_at_seq_def query_at_time_def read_int_str_int)
qed

theorem time_travel_rewrite_witness:
  "acquire env_ok idle_world = (Returns 0, busy_world) \<and> connected (heap busy_world ! 0) \<and>
   map (\<lambda>m. msg_query (snd m))
       (wire (snd (query_at_seq env_ok ''SELECT * FROM t'' 42 None idle_world))) =
     [''SELECT * FROM t FOR SYSTEM_TIME AS OF @SEQ:42''] \<and>
   map (\<lambda>m. msg_query (snd m))
       (wire (snd (query_at_time env_ok ''SELECT * FROM t'' (TsStr ''2024-01-01T00:00:00'') None
                     idle_world))) =
     [''SELECT * FROM t FOR SYSTEM_TIME AS OF '' @ [CHR 0x27] @ ''2024-01-01T00:00:00'' @
      [CHR 0x27]]"
  using time_travel_rewrite
          [of env_ok "''SELECT * FROM t''" 42 None idle_world "''2024-01-01T00:00:00''" 0 busy_world]
  by (simp add: scenario_defs str_int_def digit_char_def digits.simps)

subsection \<open>Transaction entry and the documented usage\<close>

lemma aenter_begin_failure:
  assumes "acquire en w = (Returns c, w1)"
      and "conn_execute en c ''BEGIN TRANSACTION'' None w1 = (Inl e, w2)"
  shows "aenter en tx w = (Raises e, tx\<lparr>conn := Some c\<rparr>, w2) \<and>
         available (cpool w2) = available (cpool w1)"
  using assms conn_execute_cpool [of en c "''BEGIN TRANSACTION''" None w1]
  by (simp add: aenter_def)

lemma aenter_acquire_failure:
  "acquire en w = (Raises e, w1) \<Longrightarrow> aenter en tx w = (Raises e, tx, w1)"
  by (simp add: aenter_def)

text \<open>
  C2 at a pool with one idle connection and a server that answers \<^verbatim>\<open>BEGIN TRANSACTION\<close>
  with an error response: \<^verbatim>\<open>__aenter__\<close> raises, the transaction keeps the connection in
  \<^verbatim>\<open>_conn\<close>, and the queue stays empty, also after the whole \<^verbatim>\<open>async with\<close> statement:
  the connection is not given back.
\<close>

theorem begin_failure_leaks_connection:
  "available (cpool idle_world) = [0] \<and>
   fst (aenter env_error transaction_new idle_world) =
     Raises (QueryError ''Query execution failed: no such table'') \<and>
   conn (fst (snd (aenter env_error transaction_new idle_world))) = Some 0 \<and>
   available (cpool (snd (snd (aenter env_error transaction_new idle_world)))) = [] \<and>
   fst (with_transaction env_error [] idle_world) =
     Raises (QueryError ''Query execution failed: no such table'') \<and>
   available (cpool (snd (snd (with_transaction env_error [] idle_world)))) = []"
  by (simp add: scenario_defs)

text \<open>
  What a scope that returns has written: \<^verbatim>\<open>BEGIN TRANSACTION\<close>, the statements of the
  body in order, and the \<^verbatim>\<open>COMMIT\<close> of \<^verbatim>\<open>__aexit__\<close>; its connection is released once.
  So \<^verbatim>\<open>COMMIT\<close> is written once exactly when the body writes none itself.
\<close>

lemma sent_on_append:
  "wire w' = wire w @ [(c, m)] \<Longrightarrow> sent_on c w' = sent_on c w @ [msg_query m]"
  by (simp add: sent_on_def)

lemma conn_execute_returns:
  assumes "conn_execute en c q ps w = (Inr r, w')"
  shows "connected (heap w ! c) \<and> heap w' = heap w \<and> cpool w' = cpool w \<and>
         sent_on c w' = sent_on c w @ [q]"
proof -
  have con: "connected (heap w ! c)" using conn_execute_result [OF assms] by simp
  have "wire w' = wire w @ [(c, query_message q ps)]"
    using conn_execute_wire [of en c q ps w] assms con by simp
  then have "sent_on c w' = sent_on c w @ [q]"
    using sent_on_append [of w' w c "query_message q ps"] by (simp add: query_message_def)
  then show ?thesis
    using con conn_execute_heap [of en c q ps w] conn_execute_cpool [of en c q ps w] assms by simp
qed

lemma run_op_returns:
  assumes "conn tx = Some c" and "run_op en tx x w = (Returns u, w')"
  shows "heap w' = heap w \<and> cpool w' = cpool w \<and> sent_on c w' = sent_on c w @ [stmt_of x]"
proof (cases x)
  case (Execute sql params)
  obtain res w1 where ex: "conn_execute en c sql params w = (res, w1)"
    by (cases "conn_execute en c sql params w")
  then obtain r where "res = Inr r" "w1 = w'"
    using assms Execute by (cases res) (auto simp: tx_execute_def)
  then show ?thesis using conn_execute_returns [of en c sql params w r w'] ex Execute by simp
next
  case Commit
  obtain res w1 where ex: "conn_execute en c ''COMMIT'' None w = (res, w1)"
    by (cases "conn_execute en c ''COMMIT'' None w")
  then obtain r where "res = Inr r" "w1 = w'"
    using assms Commit by (cases res) (auto simp: tx_commit_def)
  then show ?thesis using conn_execute_returns [of en c "''COMMIT''" None w r w'] ex Commit by simp
next
  case Rollback
  obtain res w1 where ex: "conn_execute en c ''ROLLBACK'' None w = (res, w1)"
    by (cases "conn_execute en c ''ROLLBACK'' None w")
  then obtain r where "res = Inr r" "w1 = w'"
    using assms Rollback by (cases res) (auto simp: tx_rollback_def)
  then show ?thesis using conn_execute_returns [of en c "''ROLLBACK''" None w r w'] ex Rollback by simp
next
  case (Fail e)
  then show ?thesis using assms by simp
qed

lemma run_body_returns:
  "conn tx = Some c \<Longrightarrow> run_body en tx body w = (Returns u, w') \<Longrightarrow>
   heap w' = heap w \<and> cpool w' = cpool w \<and> sent_on c w' = sent_on c w @ map stmt_of body"
proof (induction body arbitrary: w)
  case Nil
  then show ?case by simp
next
  case (Cons x xs)
  obtain o1 w1 where op: "run_op en tx x w = (o1, w1)" by (cases "run_op en tx x w")
  then obtain u1 where o1: "o1 = Returns u1" and rest: "run_body en tx xs w1 = (Returns u, w')"
    using Cons.prems(2) by (cases o1) auto
  from run_op_returns [OF Cons.prems(1)] op o1
  have a: "heap w1 = heap w" "cpool w1 = cpool w" "sent_on c w1 = sent_on c w @ [stmt_of x]"
    by auto
  from Cons.IH [OF Cons.prems(1) rest] a show ?case by simp
qed

lemma scope_statements:
  assumes "with_transaction en body w = (Returns u, tx, w')"
  shows "\<exists>c w1. acquire en w = (Returns c, w1) \<and> conn tx = Some c \<and>
           sent_on c w' = sent_on c w1 @ ''BEGIN TRANSACTION'' # map stmt_of body @ [''COMMIT''] \<and>
           available (cpool w') = available (cpool w1) @ [c]"
proof -
  obtain o1 tx1 w2 where en: "aenter en transaction_new w = (o1, tx1, w2)"
    by (cases "aenter en transaction_new w") auto
  then have o1: "o1 = Returns ()"
    using assms by (cases o1) (auto simp: with_transaction_def)
  obtain c w1 where acq: "acquire en w = (Returns c, w1)"
    using en o1 by (cases "acquire en w"; cases "fst (acquire en w)") (auto simp: aenter_def)
  obtain res0 w2' where b0: "conn_execute en c ''BEGIN TRANSACTION'' None w1 = (res0, w2')"
    by (cases "conn_execute en c ''BEGIN TRANSACTION'' None w1")
  then obtain r0 where r0: "res0 = Inr r0" and tx1: "tx1 = transaction_new\<lparr>conn := Some c\<rparr>" and w2: "w2' = w2"
    using en o1 acq by (cases res0) (auto simp: aenter_def)
  have c1: "conn tx1 = Some c" using tx1 by simp
  from conn_execute_returns [of en c "''BEGIN TRANSACTION''" None w1 r0 w2] b0 r0 w2
  have s2: "connected (heap w1 ! c)" "heap w2 = heap w1" "cpool w2 = cpool w1"
    "sent_on c w2 = sent_on c w1 @ [''BEGIN TRANSACTION'']"
    by auto
  obtain o3 w3 where body: "run_body en tx1 body w2 = (o3, w3)" by (cases "run_body en tx1 body w2")
  have o3: "o3 = Returns ()"
  proof (cases o3)
    case (Returns x)
    then show ?thesis by simp
  next
    case (Raises e)
    then show ?thesis
      using assms en o1 body
      by (cases "aexit en tx1 True w3"; cases "fst (aexit en tx1 True w3)")
         (auto simp: with_transaction_def)
  next
    case Blocks
    then show ?thesis using assms en o1 body by (simp add: with_transaction_def)
  qed
  from run_body_returns [OF c1] body o3
  have s3: "heap w3 = heap w2" "cpool w3 = cpool w2" "sent_on c w3 = sent_on c w2 @ map stmt_of body"
    by auto
  have ex: "aexit en tx1 False w3 = (Returns u, w')" and txeq: "tx = tx1"
    using assms en o1 body o3 by (auto simp: with_transaction_def split: prod.splits)
  have con3: "connected (heap w3 ! c)" using s2 s3 by simp
  have "w' = release c (snd (conn_execute en c ''COMMIT'' None w3))"
    using aexit_bound [OF c1, of en False w3] ex by simp
  then have "available (cpool w') = available (cpool w3) @ [c]"
    "wire w' = wire w3 @ [(c, query_message ''COMMIT'' None)]"
    using conn_execute_cpool [of en c "''COMMIT''" None w3]
          conn_execute_wire [of en c "''COMMIT''" None w3] con3
    by (simp_all add: release_def)
  then have "available (cpool w') = available (cpool w1) @ [c]"
    "sent_on c w' = sent_on c w3 @ [''COMMIT'']"
    using s2 s3 sent_on_append [of w' w3 c "query_message ''COMMIT'' None"]
    by (simp_all add: query_message_def)
  then show ?thesis using acq c1 txeq s2 s3 by simp
qed

text \<open>
  C3 at the usage the docstring of \<^verbatim>\<open>Client\<close> shows, where the body ends with
  \<^verbatim>\<open>await tx.commit()\<close>: the scope returns, the connection is released once, and
  \<^verbatim>\<open>COMMIT\<close> has been written twice, by \<^verbatim>\<open>commit\<close> and again by \<^verbatim>\<open>__aexit__\<close>.
\<close>

theorem documented_usage_commits_twice:
  "fst (with_transaction env_ok documented_body idle_world) = Returns () \<and>
   sent_on 0 (snd (snd (with_transaction env_ok documented_body idle_world))) =
     [''BEGIN TRANSACTION'', ''INSERT INTO users VALUES (?, ?)'',
      ''INSERT INTO users VALUES (?, ?)'', ''COMMIT'', ''COMMIT''] \<and>
   available (cpool (snd (snd (with_transaction env_ok documented_body idle_world)))) = [0]"
  by (simp add: scenario_defs)

subsection \<open>The pool under concurrent callers\<close>

lemma sum_list_task_update:
  fixes f :: "'a \<Rightarrow> nat"
  shows "t < length xs \<Longrightarrow> sum_list (map f (xs[t := k])) + f (xs ! t) = sum_list (map f xs) + f k"
proof (induction xs arbitrary: t)
  case Nil
  then show ?case by simp
next
  case (Cons x xs)
  show ?case
  proof (cases t)
    case 0
    then show ?thesis by simp
  next
    case (Suc u)
    then have "u < length xs" using Cons.prems by simp
    from Cons.IH [OF this] show ?thesis using Suc by simp
  qed
qed

lemma checked_out_set_task:
  "t < length (tasks s) \<Longrightarrow>
   checked_out (set_task t k s) + length (held (tasks s ! t)) = checked_out s + length (held k)"
  using sum_list_task_update [of t "tasks s" "\<lambda>k. length (held k)" k]
  by (simp add: checked_out_def set_task_def)

lemma connecting_set_task:
  "t < length (tasks s) \<Longrightarrow>
   connecting (set_task t k s) + (if pc (tasks s ! t) = Connecting then 1 else 0) =
     connecting s + (if pc k = Connecting then 1 else 0)"
  using sum_list_task_update [of t "tasks s" "\<lambda>k. if pc k = Connecting then 1 else 0" k]
  by (simp add: connecting_def set_task_def)

lemma connecting_same_pc:
  "t < length (tasks s) \<Longrightarrow> (pc k = Connecting) = (pc (tasks s ! t) = Connecting) \<Longrightarrow>
   connecting (set_task t k s) = connecting s"
  using connecting_set_task [of t s k] by (simp split: if_splits)

lemma checked_out_same_held:
  "t < length (tasks s) \<Longrightarrow> held k = held (tasks s ! t) \<Longrightarrow>
   checked_out (set_task t k s) = checked_out s"
  using checked_out_set_task [of t s k] by simp

lemma sworld_set_task [simp]: "sworld (set_task t k s) = sworld s"
  by (simp add: set_task_def)

lemma checked_out_sworld [simp]: "checked_out (s\<lparr>sworld := w\<rparr>) = checked_out s"
  by (simp add: checked_out_def)

lemma connecting_sworld [simp]: "connecting (s\<lparr>sworld := w\<rparr>) = connecting s"
  by (simp add: connecting_def)

lemma create_connection_cases:
  obtains (fail) e where "create_connection oc w = (Raises e, w\<lparr>clock := Suc (clock w)\<rparr>)"
  | (ok) c where
      "create_connection oc w =
        (Returns (length (heap w)),
         w\<lparr>heap := heap w @ [c], clock := Suc (clock w),
           cpool := (cpool w)\<lparr>pool_size := pool_size (cpool w) + 1\<rparr>\<rparr>)"
  by (cases oc) (simp_all add: create_connection_def connect_def)

text \<open>The lock invariant holds along every run, whatever is released.\<close>

lemma lock_inv_pc_change:
  assumes "lock_inv s" and "t < length (tasks s)"
      and "pc (tasks s ! t) \<noteq> Connecting" and "pc k \<noteq> Connecting"
  shows "lock_inv (set_task t k s)"
  using assms connecting_same_pc [of t s k] by (simp add: lock_inv_def)

lemma lock_inv_same_pc:
  assumes "lock_inv s" and "t < length (tasks s)"
      and "(pc k = Connecting) = (pc (tasks s ! t) = Connecting)"
  shows "lock_inv (set_task t k s)"
  using assms connecting_same_pc [of t s k] by (simp add: lock_inv_def)

lemma lock_inv_available:
  "lock_inv (s\<lparr>sworld := (sworld s)\<lparr>cpool := (cpool (sworld s))\<lparr>available := q\<rparr>\<rparr>\<rparr>) = lock_inv s"
  by (simp add: lock_inv_def)

lemma step_lock_inv:
  assumes "lock_inv s" and "step e s = Some s'"
  shows "lock_inv s' \<and> max_size (cpool (sworld s')) = max_size (cpool (sworld s))"
proof (cases e)
  case (CallAcquire t)
  then have "t < length (tasks s)" "pc (tasks s ! t) = Idle"
    and "s' = set_task t ((tasks s ! t)\<lparr>pc := Polling\<rparr>) s"
    using assms(2) by (auto split: if_splits)
  then show ?thesis
    using lock_inv_pc_change [OF assms(1), of t "(tasks s ! t)\<lparr>pc := Polling\<rparr>"] by simp
next
  case (PollTimeout t)
  then have "t < length (tasks s)" "pc (tasks s ! t) = Polling"
    and "s' = set_task t ((tasks s ! t)\<lparr>pc := AtLock\<rparr>) s"
    using assms(2) by (auto split: if_splits)
  then show ?thesis
    using lock_inv_pc_change [OF assms(1), of t "(tasks s ! t)\<lparr>pc := AtLock\<rparr>"] by simp
next
  case (GetItem t)
  then have t: "t < length (tasks s)" "pc (tasks s ! t) \<noteq> Connecting"
    using assms(2) by (auto split: if_splits)
  obtain c rest where q: "available (cpool (sworld s)) = c # rest"
    using assms(2) GetItem t by (cases "available (cpool (sworld s))") (auto split: if_splits)
  define s1 where "s1 = s\<lparr>sworld := (sworld s)\<lparr>cpool := (cpool (sworld s))\<lparr>available := rest\<rparr>\<rparr>\<rparr>"
  have s': "s' = set_task t \<lparr>pc = Idle, held = c # held (tasks s ! t)\<rparr> s1"
    using assms(2) GetItem q by (auto simp: s1_def split: if_splits)
  have "lock_inv s1" using assms(1) lock_inv_available [where s = s and q = rest] by (simp add: s1_def)
  then have "lock_inv s'"
    using lock_inv_pc_change [of s1 t "\<lparr>pc = Idle, held = c # held (tasks s ! t)\<rparr>"] t s'
    by (simp add: s1_def)
  then show ?thesis using s' by (simp add: s1_def)
next
  case (CallRelease t c)
  then have t: "t < length (tasks s)"
    using assms(2) by (auto split: if_splits)
  define s1 where "s1 = s\<lparr>sworld := release c (sworld s)\<rparr>"
  have s': "s' = set_task t ((tasks s ! t)\<lparr>held := remove1 c (held (tasks s ! t))\<rparr>) s1"
    using assms(2) CallRelease t by (simp add: s1_def)
  have "lock_inv s1"
    using assms(1) lock_inv_available [where s = s and q = "available (cpool (sworld s)) @ [c]"]
    by (simp add: s1_def release_def)
  then have "lock_inv s'"
    using lock_inv_same_pc
            [of s1 t "(tasks s ! t)\<lparr>held := remove1 c (held (tasks s ! t))\<rparr>"] t s'
    by (simp add: s1_def)
  then show ?thesis using s' by (simp add: s1_def release_def)
next
  case (EnterLock t)
  then have t: "t < length (tasks s)" "pc (tasks s ! t) = AtLock" "\<not> locked (cpool (sworld s))"
    using assms(2) by (auto split: if_splits)
  have none: "connecting s = 0"
    using assms(1) t(3) by (simp add: lock_inv_def)
  show ?thesis
  proof (cases "pool_size (cpool (sworld s)) < max_size (cpool (sworld s))")
    case True
    define s1 where "s1 = s\<lparr>sworld := set_locked True (sworld s)\<rparr>"
    have s': "s' = set_task t ((tasks s ! t)\<lparr>pc := Connecting\<rparr>) s1"
      using assms(2) EnterLock t True by (simp add: s1_def)
    have "connecting s' = 1"
      using connecting_set_task [of t s1 "(tasks s ! t)\<lparr>pc := Connecting\<rparr>"] s' t none
      by (simp add: s1_def)
    then show ?thesis
      using s' True by (simp add: lock_inv_def s1_def set_locked_def)
  next
    case False
    have s': "s' = set_task t ((tasks s ! t)\<lparr>pc := Queued\<rparr>) s"
      using assms(2) EnterLock t False by simp
    then show ?thesis
      using lock_inv_pc_change [OF assms(1), of t "(tasks s ! t)\<lparr>pc := Queued\<rparr>"] t by simp
  qed
next
  case (ConnectDone t oc)
  then have t: "t < length (tasks s)" "pc (tasks s ! t) = Connecting"
    using assms(2) by (auto split: if_splits)
  have "1 \<le> connecting s"
    using connecting_set_task [OF t(1), of "(tasks s ! t)\<lparr>pc := Idle\<rparr>"] t(2) by simp
  then have lk: "connecting s = 1" "pool_size (cpool (sworld s)) < max_size (cpool (sworld s))"
    using assms(1) by (auto simp: lock_inv_def split: if_splits)
  show ?thesis
  proof (cases rule: create_connection_cases [of oc "sworld s"])
    case (fail e)
    define s1 where
      "s1 = s\<lparr>sworld := set_locked False ((sworld s)\<lparr>clock := Suc (clock (sworld s))\<rparr>)\<rparr>"
    have s': "s' = set_task t ((tasks s ! t)\<lparr>pc := Idle\<rparr>) s1"
      using assms(2) ConnectDone t fail by (simp add: s1_def)
    have "connecting s' = 0"
      using connecting_set_task [of t s1 "(tasks s ! t)\<lparr>pc := Idle\<rparr>"] s' t lk(1)
      by (simp add: s1_def)
    then show ?thesis
      using s' lk(2) by (simp add: lock_inv_def s1_def set_locked_def)
  next
    case (ok c)
    define s1 where
      "s1 = s\<lparr>sworld := set_locked False
          ((sworld s)\<lparr>heap := heap (sworld s) @ [c], clock := Suc (clock (sworld s)),
             cpool := (cpool (sworld s))\<lparr>pool_size := pool_size (cpool (sworld s)) + 1\<rparr>\<rparr>)\<rparr>"
    have s': "s' = set_task t \<lparr>pc = Idle, held = length (heap (sworld s)) # held (tasks s ! t)\<rparr> s1"
      using assms(2) ConnectDone t ok by (simp add: s1_def)
    have "connecting s' = 0"
      using connecting_set_task
              [of t s1 "\<lparr>pc = Idle, held = length (heap (sworld s)) # held (tasks s ! t)\<rparr>"]
            s' t lk(1)
      by (simp add: s1_def)
    then show ?thesis
      using s' lk(2) by (simp add: lock_inv_def s1_def set_locked_def)
  qed
qed

lemma run_lock_inv:
  "lock_inv s \<Longrightarrow> run evs s = Some s' \<Longrightarrow>
   lock_inv s' \<and> max_size (cpool (sworld s')) = max_size (cpool (sworld s))"
proof (induction evs arbitrary: s)
  case Nil
  then show ?case by simp
next
  case (Cons e evs)
  then obtain s1 where s1: "step e s = Some s1" "run evs s1 = Some s'"
    by (auto split: option.splits)
  from step_lock_inv [OF Cons.prems(1) s1(1)] Cons.IH [OF _ s1(2)]
  show ?case by simp
qed

text \<open>The size counts the live connections along every matched run.\<close>

lemma step_count_inv:
  assumes "count_inv s" and "proper e s" and "step e s = Some s'"
  shows "count_inv s'"
proof (cases e)
  case (CallAcquire t)
  then have "t < length (tasks s)"
    and "s' = set_task t ((tasks s ! t)\<lparr>pc := Polling\<rparr>) s"
    using assms(3) by (auto split: if_splits)
  then show ?thesis
    using assms(1) checked_out_same_held [of t s "(tasks s ! t)\<lparr>pc := Polling\<rparr>"]
    by (simp add: count_inv_def live_count_def)
next
  case (PollTimeout t)
  then have "t < length (tasks s)"
    and "s' = set_task t ((tasks s ! t)\<lparr>pc := AtLock\<rparr>) s"
    using assms(3) by (auto split: if_splits)
  then show ?thesis
    using assms(1) checked_out_same_held [of t s "(tasks s ! t)\<lparr>pc := AtLock\<rparr>"]
    by (simp add: count_inv_def live_count_def)
next
  case (EnterLock t)
  then have t: "t < length (tasks s)"
    using assms(3) by (auto split: if_splits)
  show ?thesis
  proof (cases "pool_size (cpool (sworld s)) < max_size (cpool (sworld s))")
    case True
    define s1 where "s1 = s\<lparr>sworld := set_locked True (sworld s)\<rparr>"
    have s': "s' = set_task t ((tasks s ! t)\<lparr>pc := Connecting\<rparr>) s1"
      using assms(3) EnterLock True by (auto simp: s1_def split: if_splits)
    have "checked_out s' = checked_out s"
      using checked_out_same_held [of t s1 "(tasks s ! t)\<lparr>pc := Connecting\<rparr>"] s' t
      by (simp add: s1_def)
    then show ?thesis
      using assms(1) s' by (simp add: count_inv_def live_count_def s1_def set_locked_def)
  next
    case False
    have s': "s' = set_task t ((tasks s ! t)\<lparr>pc := Queued\<rparr>) s"
      using assms(3) EnterLock False by (auto split: if_splits)
    then show ?thesis
      using assms(1) t checked_out_same_held [of t s "(tasks s ! t)\<lparr>pc := Queued\<rparr>"]
      by (simp add: count_inv_def live_count_def)
  qed
next
  case (GetItem t)
  then have t: "t < length (tasks s)"
    using assms(3) by (auto split: if_splits)
  obtain c rest where q: "available (cpool (sworld s)) = c # rest"
    using assms(3) GetItem t by (cases "available (cpool (sworld s))") (auto split: if_splits)
  define s1 where "s1 = s\<lparr>sworld := (sworld s)\<lparr>cpool := (cpool (sworld s))\<lparr>available := rest\<rparr>\<rparr>\<rparr>"
  have s': "s' = set_task t \<lparr>pc = Idle, held = c # held (tasks s ! t)\<rparr> s1"
    using assms(3) GetItem q by (auto simp: s1_def split: if_splits)
  have "checked_out s' = checked_out s + 1"
    using checked_out_set_task [of t s1 "\<lparr>pc = Idle, held = c # held (tasks s ! t)\<rparr>"] s' t
    by (simp add: s1_def)
  then show ?thesis
    using assms(1) s' q by (simp add: count_inv_def live_count_def s1_def)
next
  case (CallRelease t c)
  then have t: "t < length (tasks s)" "c \<in> set (held (tasks s ! t))"
    using assms(2) by simp_all
  define s1 where "s1 = s\<lparr>sworld := release c (sworld s)\<rparr>"
  have s': "s' = set_task t ((tasks s ! t)\<lparr>held := remove1 c (held (tasks s ! t))\<rparr>) s1"
    using assms(3) CallRelease t by (simp add: s1_def)
  have len: "length (remove1 c (held (tasks s ! t))) + 1 = length (held (tasks s ! t))"
    using length_pos_if_in_set [OF t(2)] t(2) by (simp add: length_remove1)
  have "checked_out s' + 1 = checked_out s"
    using checked_out_set_task
            [of t s1 "(tasks s ! t)\<lparr>held := remove1 c (held (tasks s ! t))\<rparr>"] s' t(1) len
    by (simp add: s1_def)
  then show ?thesis
    using assms(1) s' by (auto simp: count_inv_def live_count_def s1_def release_def)
next
  case (ConnectDone t oc)
  then have t: "t < length (tasks s)"
    using assms(3) by (auto split: if_splits)
  show ?thesis
  proof (cases rule: create_connection_cases [of oc "sworld s"])
    case (fail e)
    define s1 where
      "s1 = s\<lparr>sworld := set_locked False ((sworld s)\<lparr>clock := Suc (clock (sworld s))\<rparr>)\<rparr>"
    have s': "s' = set_task t ((tasks s ! t)\<lparr>pc := Idle\<rparr>) s1"
      using assms(3) ConnectDone fail by (auto simp: s1_def split: if_splits)
    have "checked_out s' = checked_out s"
      using checked_out_same_held [of t s1 "(tasks s ! t)\<lparr>pc := Idle\<rparr>"] s' t
      by (simp add: s1_def)
    then show ?thesis
      using assms(1) s' by (simp add: count_inv_def live_count_def s1_def set_locked_def)
  next
    case (ok c)
    define s1 where
      "s1 = s\<lparr>sworld := set_locked False
          ((sworld s)\<lparr>heap := heap (sworld s) @ [c], clock := Suc (clock (sworld s)),
             cpool := (cpool (sworld s))\<lparr>pool_size := pool_size (cpool (sworld s)) + 1\<rparr>\<rparr>)\<rparr>"
    have s': "s' = set_task t \<lparr>pc = Idle, held = length (heap (sworld s)) # held (tasks s ! t)\<rparr> s1"
      using assms(3) ConnectDone ok by (auto simp: s1_def split: if_splits)
    have "checked_out s' = checked_out s + 1"
      using checked_out_set_task
              [of t s1 "\<lparr>pc = Idle, held = length (heap (sworld s)) # held (tasks s ! t)\<rparr>"]
            s' t
      by (simp add: s1_def)
    then show ?thesis
      using assms(1) s' by (simp add: count_inv_def live_count_def s1_def set_locked_def)
  qed
qed

lemma run_count_inv:
  "count_inv s \<Longrightarrow> matched evs s \<Longrightarrow> run evs s = Some s' \<Longrightarrow> count_inv s'"
proof (induction evs arbitrary: s)
  case Nil
  then show ?case by simp
next
  case (Cons e evs)
  then obtain s1 where s1: "step e s = Some s1" "run evs s1 = Some s'"
    by (auto split: option.splits)
  have "proper e s" "matched evs s1" using Cons.prems(2) s1(1) by simp_all
  from step_count_inv [OF Cons.prems(1) this(1) s1(1)] Cons.IH [OF _ this(2) s1(2)]
  show ?case by simp
qed

lemma init_loop_counts:
  "init_loop en n w = (Returns (), w') \<Longrightarrow>
   pool_size (cpool w') = pool_size (cpool w) + int n \<and>
   length (available (cpool w')) = length (available (cpool w)) + n \<and>
   max_size (cpool w') = max_size (cpool w) \<and> locked (cpool w') = locked (cpool w)"
proof (induction n arbitrary: w)
  case 0
  then show ?case by simp
next
  case (Suc n)
  show ?case
  proof (cases rule: create_connection_cases [of "connector en (clock w)" w])
    case (fail e)
    then show ?thesis using Suc.prems by simp
  next
    case (ok c)
    then have "init_loop en n (release (length (heap w))
         (w\<lparr>heap := heap w @ [c], clock := Suc (clock w),
           cpool := (cpool w)\<lparr>pool_size := pool_size (cpool w) + 1\<rparr>\<rparr>)) = (Returns (), w')"
      using Suc.prems by simp
    from Suc.IH [OF this] show ?thesis by (simp add: release_def)
  qed
qed

lemma sworld_start [simp]: "sworld (start k w) = w"
  by (simp add: start_def)

lemma checked_out_start: "checked_out (start k w) = 0"
  by (simp add: checked_out_def start_def)

lemma connecting_start: "connecting (start k w) = 0"
  by (simp add: connecting_def start_def)

text \<open>
  Whatever the tasks release, the pool never counts more than \<open>max_size\<close> connections
  created: the test of \<^verbatim>\<open>_size\<close> and its increment are under the lock.
\<close>

lemma created_at_most_max_size:
  assumes "0 \<le> mn" and "mn \<le> mx"
      and "initialize en (new_world (new_pool h p mn mx t)) = (Returns (), w0)"
      and "run evs (start k w0) = Some s"
  shows "pool_size (cpool (sworld s)) \<le> mx"
proof -
  have init: "pool_size (cpool w0) = int (nat mn)" "max_size (cpool w0) = mx" "\<not> locked (cpool w0)"
    using init_loop_counts [of en "nat mn" "new_world (new_pool h p mn mx t)" w0] assms(3)
    by (simp_all add: initialize_def new_world_def new_pool_def)
  have "lock_inv (start k w0)"
    using init assms(1,2) by (simp add: lock_inv_def connecting_start)
  from run_lock_inv [OF this assms(4)] show ?thesis
    using init(2) by (simp add: lock_inv_def)
qed

text \<open>
  C1, as the code has it. For a pool constructed with \<open>0 \<le> min_size \<le> max_size\<close>, once
  \<^verbatim>\<open>initialize\<close> has returned the live connections (checked out plus idle) number
  \<open>min_size\<close>; and after any interleaving of the steps of any number of tasks that call
  \<^verbatim>\<open>acquire\<close> and \<^verbatim>\<open>release\<close>, in which every release hands back a connection its caller
  has acquired and not yet released, the live connections number \<^verbatim>\<open>_size\<close>, which is at
  most \<open>max_size\<close>.
\<close>

theorem capacity_invariant:
  assumes "0 \<le> mn" and "mn \<le> mx"
      and "initialize en (new_world (new_pool h p mn mx t)) = (Returns (), w0)"
      and "matched evs (start k w0)"
      and "run evs (start k w0) = Some s"
  shows "live_count (start k w0) = mn \<and>
         live_count s \<le> mx \<and>
         live_count s = pool_size (cpool (sworld s)) \<and>
         max_size (cpool (sworld s)) = mx"
proof -
  have init: "pool_size (cpool w0) = int (nat mn)" "length (available (cpool w0)) = nat mn"
    "max_size (cpool w0) = mx" "\<not> locked (cpool w0)"
    using init_loop_counts [of en "nat mn" "new_world (new_pool h p mn mx t)" w0] assms(3)
    by (simp_all add: initialize_def new_world_def new_pool_def)
  have live0: "live_count (start k w0) = mn"
    using init(2) assms(1) by (simp add: live_count_def checked_out_start)
  have "lock_inv (start k w0)"
    using init assms(1,2) by (simp add: lock_inv_def connecting_start)
  from run_lock_inv [OF this assms(5)]
  have lock: "lock_inv s" "max_size (cpool (sworld s)) = mx"
    using init(3) by simp_all
  have "count_inv (start k w0)"
    using init(1) live0 assms(1) by (simp add: count_inv_def)
  from run_count_inv [OF this assms(4,5)] have "count_inv s" .
  then show ?thesis using lock live0 by (simp add: count_inv_def lock_inv_def)
qed

lemmas run_defs =
  scenario_defs start_def set_task_def set_locked_def live_count_def checked_out_def

theorem capacity_invariant_witness:
  "(0::int) \<le> 1 \<and> (1::int) \<le> 2 \<and>
   initialize env_ok (new_world (new_pool ''localhost'' 5432 1 2 ''10.0'')) =
     (Returns (), idle_world) \<and>
   matched race_events (start 3 idle_world) \<and>
   live_count (start 3 idle_world) = 1 \<and>
   map_option live_count (run race_events (start 3 idle_world)) = Some 2 \<and>
   map_option (\<lambda>s. map pc (tasks s)) (run race_events (start 3 idle_world)) =
     Some [Idle, Idle, Idle]"
  using capacity_invariant [of 1 2 env_ok "''localhost''" 5432 "''10.0''" idle_world race_events 3
      "the (run race_events (start 3 idle_world))"]
  by (simp add: run_defs numeral_3_eq_3 numeral_2_eq_2)

text \<open>
  C1 as stated fails in two ways. The constructor accepts sizes below zero:
  \<^verbatim>\<open>range(self.min_size)\<close> is then empty, so after \<^verbatim>\<open>initialize\<close> no connection is live,
  which is neither \<open>min_size\<close> nor at most \<open>max_size\<close>. And \<^verbatim>\<open>release\<close> enqueues
  whatever it is given: a connection released three times is three idle entries in a pool
  whose \<open>max_size\<close> is two.
\<close>

theorem capacity_counterexample:
  "min_size (cpool negative_world) \<le> max_size (cpool negative_world) \<and>
   fst (initialize env_ok (new_world (new_pool ''localhost'' 5432 (- 2) (- 1) ''10.0''))) =
     Returns () \<and>
   live_count (start 1 negative_world) \<noteq> min_size (cpool negative_world) \<and>
   max_size (cpool negative_world) < live_count (start 1 negative_world) \<and>
   initialize env_ok (new_world (new_pool ''localhost'' 5432 1 2 ''10.0'')) =
     (Returns (), idle_world) \<and>
   max_size (cpool idle_world) = 2 \<and>
   map_option live_count (run double_release_events (start 1 idle_world)) = Some 3 \<and>
   map_option (\<lambda>s. available (cpool (sworld s))) (run double_release_events (start 1 idle_world)) =
     Some [0, 0, 0]"
  by (simp add: run_defs)

end
